theory Spec2Isabelle
  imports Complex_Main "HOL-Library.Word"
begin

unbundle bit_operations_syntax

section \<open>Strings\<close>

text \<open>
  Go strings are byte sequences; they are modelled as \<^typ>\<open>string\<close> (lists of 8-bit
  characters) and \<open>len\<close> is \<^const>\<open>length\<close>. The functions of package \<open>strings\<close>
  that the program calls are written out on bytes. \<open>ToLower\<close> and \<open>TrimSpace\<close> act on
  the ASCII range; bytes from 128 upwards are left alone.
\<close>

fun HasPrefix :: "string \<Rightarrow> string \<Rightarrow> bool" where
  "HasPrefix s [] = True"
| "HasPrefix [] (p # ps) = False"
| "HasPrefix (c # cs) (p # ps) = (c = p \<and> HasPrefix cs ps)"

text \<open>\<open>strings.Index\<close>: the position of the first occurrence, \<open>None\<close> for Go's -1.\<close>

fun strIndex :: "string \<Rightarrow> string \<Rightarrow> nat option" where
  "strIndex [] sub = (if sub = [] then Some 0 else None)"
| "strIndex (c # cs) sub =
     (if HasPrefix (c # cs) sub then Some 0
      else (case strIndex cs sub of None \<Rightarrow> None | Some i \<Rightarrow> Some (Suc i)))"

definition Contains :: "string \<Rightarrow> string \<Rightarrow> bool" where
  "Contains s sub = (strIndex s sub \<noteq> None)"

text \<open>\<open>strings.Replace(s, old, new, 1)\<close>: only the first occurrence is replaced.\<close>

definition Replace1 :: "string \<Rightarrow> string \<Rightarrow> string \<Rightarrow> string" where
  "Replace1 s old new =
     (case strIndex s old of
        None \<Rightarrow> s
      | Some i \<Rightarrow> take i s @ new @ drop (i + length old) s)"

definition isUpper :: "char \<Rightarrow> bool" where
  "isUpper c = (65 \<le> (of_char c :: nat) \<and> (of_char c :: nat) \<le> 90)"

definition isLower :: "char \<Rightarrow> bool" where
  "isLower c = (97 \<le> (of_char c :: nat) \<and> (of_char c :: nat) \<le> 122)"

definition isDigit :: "char \<Rightarrow> bool" where
  "isDigit c = (48 \<le> (of_char c :: nat) \<and> (of_char c :: nat) \<le> 57)"

definition toLowerChar :: "char \<Rightarrow> char" where
  "toLowerChar c = (if isUpper c then char_of ((of_char c :: nat) + 32) else c)"

definition ToLower :: "string \<Rightarrow> string" where
  "ToLower s = map toLowerChar s"

fun splitOn :: "char \<Rightarrow> string \<Rightarrow> string list" where
  "splitOn sep [] = [[]]"
| "splitOn sep (c # cs) =
     (if c = sep then [] # splitOn sep cs
      else (case splitOn sep cs of [] \<Rightarrow> [[c]] | w # ws \<Rightarrow> (c # w) # ws))"

text \<open>\<open>strings.Split(s, "\n")\<close>.\<close>

definition splitLines :: "string \<Rightarrow> string list" where
  "splitLines s = splitOn (CHR 0x0A) s"

text \<open>\<open>strings.Join\<close>.\<close>

fun Join :: "string list \<Rightarrow> string \<Rightarrow> string" where
  "Join [] sep = []"
| "Join [x] sep = x"
| "Join (x # y # ys) sep = x @ sep @ Join (y # ys) sep"

definition isSpace :: "char \<Rightarrow> bool" where
  "isSpace c = ((of_char c :: nat) \<in> {9, 10, 11, 12, 13, 32})"

definition TrimSpace :: "string \<Rightarrow> string" where
  "TrimSpace s = rev (dropWhile isSpace (rev (dropWhile isSpace s)))"

text \<open>The verb \<open>%d\<close> of \<open>fmt.Sprintf\<close>.\<close>

function natStr :: "nat \<Rightarrow> string" where
  "natStr n =
     (if n < 10 then [char_of (48 + n)]
      else natStr (n div 10) @ [char_of (48 + n mod 10)])"
  by pat_completeness auto
termination
  by (relation "measure id") auto

declare natStr.simps [simp del]

definition intStr :: "int \<Rightarrow> string" where
  "intStr i = (if i < 0 then ''-'' @ natStr (nat (- i)) else natStr (nat i))"

section \<open>Query analyzer (internal/retrieval/query\_analyzer.go)\<close>

datatype QueryType = StructuralQuery | SemanticQuery | HybridQuery

definition conceptWords :: "string list" where
  "conceptWords = [''how'', ''where'', ''why'', ''find'', ''search'', ''explain'', ''show me'']"

definition behaviorWords :: "string list" where
  "behaviorWords =
     [''handle'', ''process'', ''validate'', ''check'', ''manage'', ''create'', ''update'', ''delete'']"

definition callGraphWords :: "string list" where
  "callGraphWords = [''calls'', ''called by'', ''uses'', ''used by'', ''depends on'', ''imports'']"

text \<open>
  \<open>symbolPattern.FindAllString(query, -1)\<close> for the pattern \<open>[A-Z][a-zA-Z0-9]*\<close>: the
  successive leftmost matches, each one an upper-case letter followed by the longest run
  of letters and digits.
\<close>

definition isSymbolChar :: "char \<Rightarrow> bool" where
  "isSymbolChar c = (isUpper c \<or> isLower c \<or> isDigit c)"

function FindAllString :: "string \<Rightarrow> string list" where
  "FindAllString [] = []"
| "FindAllString (c # cs) =
     (if isUpper c
      then (c # takeWhile isSymbolChar cs) # FindAllString (dropWhile isSymbolChar cs)
      else FindAllString cs)"
  by pat_completeness auto
termination
  by (relation "measure length") (auto simp: less_Suc_eq_le length_dropWhile_le)

definition commonWords :: "string list" where
  "commonWords =
     [''I'', ''A'', ''The'', ''This'', ''That'', ''What'', ''How'', ''Where'', ''Why'']"

definition hasSymbols :: "string \<Rightarrow> bool" where
  "hasSymbols query =
     list_ex (\<lambda>m. m \<notin> set commonWords \<and> length m > 1) (FindAllString query)"

definition containsAny :: "string \<Rightarrow> string list \<Rightarrow> bool" where
  "containsAny text words = list_ex (\<lambda>word. Contains text word) words"

definition Classify :: "string \<Rightarrow> QueryType" where
  "Classify query0 =
     (let query = ToLower query0;
          hasSymbol = hasSymbols query;
          hasFilePath = (Contains query ''/'' \<or> Contains query ''.go'' \<or> Contains query ''.py'');
          hasCallGraph = containsAny query callGraphWords;
          hasConcept = containsAny query conceptWords;
          hasBehavior = containsAny query behaviorWords
      in if (hasSymbol \<or> hasFilePath \<or> hasCallGraph) \<and> \<not> hasConcept \<and> \<not> hasBehavior
         then StructuralQuery
         else if (hasConcept \<or> hasBehavior) \<and> \<not> hasSymbol \<and> \<not> hasFilePath
         then SemanticQuery
         else HybridQuery)"

section \<open>Chunks (internal/rag/types.go)\<close>

record Chunk =
  ID :: string
  FilePath :: string
  StartLine :: int
  EndLine :: int
  ChunkType :: string
  SymbolName :: string
  Language :: string
  Content :: string
  TokenCount :: int
  Hash :: string

definition estimateTokens :: "string \<Rightarrow> int" where
  "estimateTokens text = int (length text) div 4"

text \<open>
  \<open>computeHash\<close> is the hexadecimal SHA-256 of the content, computed by the standard
  library. It is the parameter \<open>computeHash\<close> of the functions below: any function from
  contents to strings. The real one gives 64 digits, so the slice \<open>hash[:16]\<close> is in
  range.
\<close>

definition NewChunk ::
  "(string \<Rightarrow> string) \<Rightarrow> string \<Rightarrow> string \<Rightarrow> string \<Rightarrow> string \<Rightarrow> string \<Rightarrow> int \<Rightarrow> int \<Rightarrow> Chunk" where
  "NewChunk computeHash filePath content chunkType symbolName language startLine endLine =
     (let hash = computeHash content
      in \<lparr>ID = take 16 hash, FilePath = filePath, StartLine = startLine, EndLine = endLine,
          ChunkType = chunkType, SymbolName = symbolName, Language = language,
          Content = content, TokenCount = estimateTokens content, Hash = hash\<rparr>)"

section \<open>Splitting large chunks (internal/rag/chunker.go)\<close>







section \<open>Vector store\<close>

text \<open>
  A vector of \<open>float32\<close> is the list of the bit patterns of its elements
  (\<open>math.Float32bits\<close>). \<open>encodeEmbedding\<close> writes each one as four bytes, the least
  significant first.
\<close>

type_synonym float32 = "32 word"

definition putUint32 :: "32 word \<Rightarrow> 8 word list" where
  "putUint32 v = [ucast v, ucast (drop_bit 8 v), ucast (drop_bit 16 v), ucast (drop_bit 24 v)]"

definition encodeEmbedding :: "float32 list \<Rightarrow> 8 word list" where
  "encodeEmbedding vec = concat (map putUint32 vec)"

text \<open>
  The table \<open>chunks\<close> is the list of its rows in insertion order; a row is a chunk and
  the blob of its embedding, and the primary key is the chunk's id.
  \<open>INSERT OR REPLACE\<close> deletes the rows with the key of the new row and appends it.
  The database itself does not fail here: \<open>Begin\<close>, \<open>Prepare\<close>, \<open>Exec\<close> and
  \<open>Commit\<close> succeed, and \<open>Rollback\<close> gives up the rows written in the transaction.
\<close>

record Row =
  chunk :: Chunk
  embedding :: "8 word list"

record SQLiteVectorStore =
  db :: "Row list"
  dims :: int

definition insertOrReplace :: "Row \<Rightarrow> Row list \<Rightarrow> Row list" where
  "insertOrReplace row rows = filter (\<lambda>r. ID (chunk r) \<noteq> ID (chunk row)) rows @ [row]"

text \<open>
  The loop of \<open>InsertBatch\<close> inside the transaction \<open>tx\<close>: \<open>Inl\<close> is the error after
  which the transaction is rolled back.
\<close>

fun insertLoop :: "int \<Rightarrow> Row list \<Rightarrow> Chunk list \<Rightarrow> float32 list list \<Rightarrow> string + Row list" where
  "insertLoop d tx (c # chunks) (emb # embeddings) =
     (if int (length emb) \<noteq> d
      then Inl (''embedding dims mismatch: expected '' @ intStr d @ '' got ''
                @ intStr (int (length emb)))
      else insertLoop d (insertOrReplace \<lparr>chunk = c, embedding = encodeEmbedding emb\<rparr> tx)
             chunks embeddings)"
| "insertLoop d tx chunks embeddings = Inr tx"

definition InsertBatch ::
  "SQLiteVectorStore \<Rightarrow> Chunk list \<Rightarrow> float32 list list \<Rightarrow> string option \<times> SQLiteVectorStore" where
  "InsertBatch s chunks embeddings =
     (if length chunks \<noteq> length embeddings
      then (Some (''chunks and embeddings length mismatch: '' @ intStr (int (length chunks))
                  @ '' vs '' @ intStr (int (length embeddings))), s)
      else (case insertLoop (dims s) (db s) chunks embeddings of
              Inl err \<Rightarrow> (Some err, s)
            | Inr tx \<Rightarrow> (None, s\<lparr>db := tx\<rparr>)))"

definition Insert ::
  "SQLiteVectorStore \<Rightarrow> Chunk \<Rightarrow> float32 list \<Rightarrow> string option \<times> SQLiteVectorStore" where
  "Insert s c emb = InsertBatch s [c] [emb]"

definition Delete :: "SQLiteVectorStore \<Rightarrow> string \<Rightarrow> SQLiteVectorStore" where
  "Delete s filePath = s\<lparr>db := filter (\<lambda>r. FilePath (chunk r) \<noteq> filePath) (db s)\<rparr>"

definition Count :: "SQLiteVectorStore \<Rightarrow> int" where
  "Count s = int (length (db s))"

definition Clear :: "SQLiteVectorStore \<Rightarrow> SQLiteVectorStore" where
  "Clear s = s\<lparr>db := []\<rparr>"

section \<open>Result merger (internal/retrieval/merger.go)\<close>

text \<open>
  Scores and relevances are \<open>float32\<close> in the source. They are modelled by real numbers:
  the arithmetic of the merger (a maximum and the factors 1.2 and 1.3) is exact here, and
  rounding, infinities and NaN are outside the model. Token counts are unbounded
  integers.
\<close>

record SearchResult =
  Chunk :: Chunk
  Score :: real
  Source :: string

record LineRange =
  Start :: int
  End :: int

record FileResult =
  Path :: string
  Content :: string
  Relevance :: real
  Source :: string
  Highlights :: "LineRange list"
  Chunks :: "Chunk list"

record Sources =
  Indexer :: int
  RAG :: int

record HybridResult =
  Files :: "FileResult list"
  TotalTokens :: int
  QueryType :: string
  Sources :: Sources

text \<open>
  \<open>fileMap\<close> maps a path to its file result. It is kept as the list of its entries in
  the order of their first insertion; an assignment through the pointer of an entry
  rewrites the entry in place.
\<close>

type_synonym FileMap = "(string \<times> FileResult) list"

fun updateEntry :: "string \<Rightarrow> (FileResult \<Rightarrow> FileResult) \<Rightarrow> FileMap \<Rightarrow> FileMap" where
  "updateEntry k f [] = []"
| "updateEntry k f ((k', v) # m) =
     (if k' = k then (k', f v) # m else (k', v) # updateEntry k f m)"

text \<open>The first loop of \<open>Merge\<close>, over the RAG results; \<open>n\<close> counts \<open>Sources.RAG\<close>.\<close>

fun addRAGResults :: "SearchResult list \<Rightarrow> FileMap \<times> int \<Rightarrow> FileMap \<times> int" where
  "addRAGResults [] st = st"
| "addRAGResults (res # ragResults) (fileMap, n) =
     (let filePath = FilePath (Chunk res)
      in (case map_of fileMap filePath of
            Some existing \<Rightarrow>
              addRAGResults ragResults
                (updateEntry filePath
                   (\<lambda>e. e\<lparr>Relevance := max (Relevance e) (Score res) * (12 / 10),
                           Chunks := Chunks e @ [Chunk res],
                           Source := ''both''\<rparr>) fileMap, n)
          | None \<Rightarrow>
              addRAGResults ragResults
                (fileMap @ [(filePath,
                   \<lparr>Path = filePath, Content = [], Relevance = Score res, Source = ''rag'',
                     Highlights = [\<lparr>Start = StartLine (Chunk res), End = EndLine (Chunk res)\<rparr>],
                     Chunks = [Chunk res]\<rparr>)], n + 1)))"

text \<open>The second loop, over the paths of the indexer; \<open>n\<close> counts \<open>Sources.Indexer\<close>.\<close>

fun addIndexerFiles :: "string list \<Rightarrow> FileMap \<times> int \<Rightarrow> FileMap \<times> int" where
  "addIndexerFiles [] st = st"
| "addIndexerFiles (filePath # indexerFiles) (fileMap, n) =
     (case map_of fileMap filePath of
        Some existing \<Rightarrow>
          addIndexerFiles indexerFiles
            (updateEntry filePath
               (\<lambda>e. e\<lparr>Relevance := Relevance e * (13 / 10), Source := ''both''\<rparr>) fileMap, n)
      | None \<Rightarrow>
          addIndexerFiles indexerFiles
            (fileMap @ [(filePath,
               \<lparr>Path = filePath, Content = [], Relevance = 9 / 10, Source = ''indexer'',
                 Highlights = [], Chunks = []\<rparr>)], n + 1))"

text \<open>The loop of \<open>truncateToTokenBudget\<close>, which stops at the first file over budget.\<close>

definition fileTokens :: "FileResult \<Rightarrow> int" where
  "fileTokens fileResult =
     (let t = sum_list (map TokenCount (Chunks fileResult))
      in if t = 0 then 500 else t)"

fun truncateLoop :: "int \<Rightarrow> FileResult list \<Rightarrow> int \<Rightarrow> FileResult list \<Rightarrow> FileResult list \<times> int" where
  "truncateLoop maxTokens [] totalTokens truncated = (truncated, totalTokens)"
| "truncateLoop maxTokens (fileResult # files) totalTokens truncated =
     (if totalTokens + fileTokens fileResult > maxTokens then (truncated, totalTokens)
      else truncateLoop maxTokens files (totalTokens + fileTokens fileResult)
             (truncated @ [fileResult]))"

definition truncateToTokenBudget :: "int \<Rightarrow> HybridResult \<Rightarrow> HybridResult" where
  "truncateToTokenBudget maxTokens res =
     (case truncateLoop maxTokens (Files res) 0 [] of
        (truncated, totalTokens) \<Rightarrow> res\<lparr>Files := truncated, TotalTokens := totalTokens\<rparr>)"

text \<open>A sort by relevance, highest first.\<close>

fun insertByRelevance :: "FileResult \<Rightarrow> FileResult list \<Rightarrow> FileResult list" where
  "insertByRelevance x [] = [x]"
| "insertByRelevance x (y # ys) =
     (if Relevance y \<ge> Relevance x then y # insertByRelevance x ys else x # y # ys)"

definition sortByRelevance :: "FileResult list \<Rightarrow> FileResult list" where
  "sortByRelevance files = foldr insertByRelevance files []"

text \<open>
  \<open>Merge\<close> ranges over the Go map to fill \<open>result.Files\<close> and sorts the slice with
  \<open>sort.Slice\<close>, which is not stable: both orders are left open by the language. The
  parameter \<open>iterate\<close> is the order in which the run time hands out the entries of the
  map; sorting what it gives reaches every order of the files with equal relevance.
\<close>

definition Merge ::
  "(FileResult list \<Rightarrow> FileResult list) \<Rightarrow> int \<Rightarrow> SearchResult list \<Rightarrow> string list
     \<Rightarrow> HybridResult" where
  "Merge iterate maxTokens ragResults indexerFiles =
     (case addRAGResults ragResults ([], 0) of
        (fileMap1, nRAG) \<Rightarrow>
          (case addIndexerFiles indexerFiles (fileMap1, 0) of
             (fileMap2, nIndexer) \<Rightarrow>
               truncateToTokenBudget maxTokens
                 \<lparr>Files = sortByRelevance (iterate (map snd fileMap2)),
                   TotalTokens = 0, QueryType = [],
                   Sources = \<lparr>Indexer = nIndexer, RAG = nRAG\<rparr>\<rparr>))"

section \<open>Paths and files\<close>

text \<open>
  Package \<open>path/filepath\<close> on a Unix system. \<open>Clean\<close> works on the elements between
  slashes: empty elements and \<open>.\<close> are dropped, \<open>..\<close> removes the element before it,
  is dropped at the root, and is kept at the front of a relative path.
\<close>

fun cleanElems :: "bool \<Rightarrow> string list \<Rightarrow> string list \<Rightarrow> string list" where
  "cleanElems rooted out [] = out"
| "cleanElems rooted out (e # es) =
     (if e = [] \<or> e = ''.'' then cleanElems rooted out es
      else if e = ''..'' then
        (if out \<noteq> [] \<and> last out \<noteq> ''..'' then cleanElems rooted (butlast out) es
         else if rooted then cleanElems rooted out es
         else cleanElems rooted (out @ [''..'']) es)
      else cleanElems rooted (out @ [e]) es)"

definition Clean :: "string \<Rightarrow> string" where
  "Clean path =
     (if path = [] then ''.''
      else let rooted = HasPrefix path ''/'';
               out = cleanElems rooted [] (splitOn CHR ''/'' path)
           in if rooted then ''/'' @ Join out ''/''
              else if out = [] then ''.'' else Join out ''/'')"

definition IsAbs :: "string \<Rightarrow> bool" where
  "IsAbs path = HasPrefix path ''/''"

text \<open>\<open>filepath.Join\<close> of two elements.\<close>

definition filepath_Join :: "string \<Rightarrow> string \<Rightarrow> string" where
  "filepath_Join a b =
     (if a \<noteq> [] then Clean (a @ ''/'' @ b)
      else if b \<noteq> [] then Clean b
      else [])"

text \<open>\<open>filepath.Dir\<close>: the path up to its last slash, cleaned.\<close>

definition Dir :: "string \<Rightarrow> string" where
  "Dir path = Clean (rev (dropWhile (\<lambda>c. c \<noteq> CHR ''/'') (rev path)))"

text \<open>
  The file system is a finite map from cleaned paths to file contents. Directories are
  implicit, so \<open>os.MkdirAll\<close> and \<open>os.WriteFile\<close> always succeed here; \<open>os.ReadFile\<close>
  and \<open>os.Remove\<close> fail on a path that holds no file. Errors are their messages.
\<close>

type_synonym FS = "string \<rightharpoonup> string"

definition os_ReadFile :: "FS \<Rightarrow> string \<Rightarrow> string + string" where
  "os_ReadFile fs name =
     (case fs (Clean name) of
        None \<Rightarrow> Inl (''open '' @ name @ '': no such file or directory'')
      | Some data \<Rightarrow> Inr data)"

definition os_WriteFile :: "FS \<Rightarrow> string \<Rightarrow> string \<Rightarrow> string + FS" where
  "os_WriteFile fs name data = Inr (fs(Clean name \<mapsto> data))"

definition os_MkdirAll :: "FS \<Rightarrow> string \<Rightarrow> string + FS" where
  "os_MkdirAll fs path = Inr fs"

definition os_Remove :: "FS \<Rightarrow> string \<Rightarrow> string + FS" where
  "os_Remove fs name =
     (case fs (Clean name) of
        None \<Rightarrow> Inl (''remove '' @ name @ '': no such file or directory'')
      | Some data \<Rightarrow> Inr (fs(Clean name := None)))"

section \<open>Actions (internal/agent/action.go)\<close>

type_synonym ActionType = string

definition ActionReadFile :: ActionType where "ActionReadFile = ''read_file''"
definition ActionEditFile :: ActionType where "ActionEditFile = ''edit_file''"
definition ActionCreateFile :: ActionType where "ActionCreateFile = ''create_file''"
definition ActionDeleteFile :: ActionType where "ActionDeleteFile = ''delete_file''"
definition ActionRunCommand :: ActionType where "ActionRunCommand = ''run_command''"
definition ActionSearch :: ActionType where "ActionSearch = ''search''"
definition ActionAskUser :: ActionType where "ActionAskUser = ''ask_user''"
definition ActionComplete :: ActionType where "ActionComplete = ''complete''"
definition ActionFail :: ActionType where "ActionFail = ''fail''"

record TextEdit =
  OldText :: string
  NewText :: string

record Action =
  Type :: ActionType
  Path :: string
  Edits :: "TextEdit list"
  Content :: string
  Command :: string
  Workdir :: string
  Query :: string
  Reason :: string
  Timeout :: int
  Summary :: string
  Question :: string

text \<open>The field \<open>Duration\<close> of an action result is wall-clock time and is left out.\<close>

record ActionResult =
  Success :: bool
  Output :: string
  Error :: string
  FilesChanged :: "string list"

section \<open>Executor\<close>

text \<open>
  Package \<open>indexer\<close> is not among the sources. A project index is modelled by the two
  things the agent asks of it: the formatted results of a symbol search
  (\<open>SearchSymbol\<close> followed by \<open>FormatSearchResult\<close>) and the formatted context of a
  task (\<open>FetchContext\<close> followed by \<open>FormatContext\<close>). The shell is a parameter too:
  from the command, the working directory and the timeout in seconds it gives the
  combined output, the error if any, and the file system it leaves.
\<close>

record ProjectIndex =
  SearchSymbol :: "string \<Rightarrow> string list"
  FetchContext :: "string \<Rightarrow> int \<Rightarrow> string"

type_synonym Shell = "string \<Rightarrow> string \<Rightarrow> int \<Rightarrow> FS \<Rightarrow> (string \<times> string option) \<times> FS"

record Executor =
  projectRoot :: string
  index :: "ProjectIndex option"
  dryRun :: bool
  blocklist :: "string list"

record ExecutorConfig =
  ProjectRoot :: string
  Index :: "ProjectIndex option"
  DryRun :: bool
  Blocklist :: "string list"

definition NewExecutor :: "ExecutorConfig \<Rightarrow> Executor" where
  "NewExecutor cfg =
     \<lparr>projectRoot = ProjectRoot cfg,
      index = Index cfg,
      dryRun = DryRun cfg,
      blocklist =
        (if length (Blocklist cfg) = 0
         then [''.env'', ''id_rsa'', ''id_dsa'', ''secrets'', ''config.yml'', ''config.yaml'']
         else Blocklist cfg)\<rparr>"

definition abs_path :: "Executor \<Rightarrow> string \<Rightarrow> string" where
  "abs_path e path = (if IsAbs path then path else filepath_Join (projectRoot e) path)"

text \<open>\<open>checkPath\<close> returns the error, \<open>None\<close> for nil.\<close>

definition checkPath :: "Executor \<Rightarrow> string \<Rightarrow> string option" where
  "checkPath e path =
     (let abs = abs_path e path
      in if \<not> HasPrefix abs (Clean (projectRoot e))
         then Some (''path '' @ path @ '' escapes project root'')
         else if list_ex (\<lambda>blocked. Contains abs blocked) (blocklist e)
         then Some (''path '' @ path @ '' is blocked'')
         else None)"

definition result :: "bool \<Rightarrow> string \<Rightarrow> string option \<Rightarrow> string list \<Rightarrow> ActionResult" where
  "result success output err changed =
     \<lparr>Success = success, Output = output,
      Error = (case err of None \<Rightarrow> [] | Some msg \<Rightarrow> msg),
      FilesChanged = changed\<rparr>"

text \<open>
  The loop over the edits of an \<open>edit_file\<close> action: \<open>None\<close> when some
  \<open>old_text\<close> does not occur in the content edited so far.
\<close>

fun applyEdits :: "string \<Rightarrow> TextEdit list \<Rightarrow> string option" where
  "applyEdits content [] = Some content"
| "applyEdits content (edit # edits) =
     (if \<not> Contains content (OldText edit) then None
      else applyEdits (Replace1 content (OldText edit) (NewText edit)) edits)"

definition Execute :: "Shell \<Rightarrow> Executor \<Rightarrow> FS \<Rightarrow> Action \<Rightarrow> ActionResult \<times> FS" where
  "Execute shell e fs action =
    (if Type action = ActionReadFile then
       (case os_ReadFile fs (abs_path e (Path action)) of
          Inl err \<Rightarrow> (result False [] (Some err) [], fs)
        | Inr content \<Rightarrow> (result True content None [], fs))
     else if Type action = ActionCreateFile then
       (case checkPath e (Path action) of
          Some err \<Rightarrow> (result False [] (Some err) [], fs)
        | None \<Rightarrow>
            if dryRun e
            then (result True (''[dry-run] would create '' @ Path action) None [], fs)
            else (case os_MkdirAll fs (Dir (abs_path e (Path action))) of
                    Inl err \<Rightarrow> (result False [] (Some err) [], fs)
                  | Inr fs1 \<Rightarrow>
                      (case os_WriteFile fs1 (abs_path e (Path action)) (Content action) of
                         Inl err \<Rightarrow> (result False [] (Some err) [], fs1)
                       | Inr fs2 \<Rightarrow>
                           (result True (''created '' @ Path action) None [Path action], fs2))))
     else if Type action = ActionEditFile then
       (case checkPath e (Path action) of
          Some err \<Rightarrow> (result False [] (Some err) [], fs)
        | None \<Rightarrow>
            if length (Edits action) = 0
            then (result False [] (Some ''no edits provided'') [], fs)
            else (case os_ReadFile fs (abs_path e (Path action)) of
                    Inl err \<Rightarrow> (result False [] (Some err) [], fs)
                  | Inr content \<Rightarrow>
                      (case applyEdits content (Edits action) of
                         None \<Rightarrow>
                           (result False [] (Some (''old_text not found in '' @ Path action)) [],
                            fs)
                       | Some content' \<Rightarrow>
                           if dryRun e
                           then (result True (''[dry-run] would edit '' @ Path action) None [], fs)
                           else (case os_WriteFile fs (abs_path e (Path action)) content' of
                                   Inl err \<Rightarrow> (result False [] (Some err) [], fs)
                                 | Inr fs1 \<Rightarrow>
                                     (result True (''edited '' @ Path action) None [Path action],
                                      fs1)))))
     else if Type action = ActionDeleteFile then
       (case checkPath e (Path action) of
          Some err \<Rightarrow> (result False [] (Some err) [], fs)
        | None \<Rightarrow>
            if dryRun e
            then (result True (''[dry-run] would delete '' @ Path action) None [], fs)
            else (case os_Remove fs (abs_path e (Path action)) of
                    Inl err \<Rightarrow> (result False [] (Some err) [], fs)
                  | Inr fs1 \<Rightarrow>
                      (result True (''deleted '' @ Path action) None [Path action], fs1)))
     else if Type action = ActionRunCommand then
       (let workdir = (if Workdir action = [] then projectRoot e else Workdir action);
            timeout = (if Timeout action = 0 then 300 else Timeout action)
        in if dryRun e
           then (result True
                   (''[dry-run] would run '' @ [CHR 0x27] @ Command action @ [CHR 0x27]
                      @ '' (cwd='' @ workdir @ '')'') None [], fs)
           else (case shell (Command action) workdir timeout fs of
                   ((output, Some err), fs1) \<Rightarrow> (result False output (Some err) [], fs1)
                 | ((output, None), fs1) \<Rightarrow> (result True output None [], fs1)))
     else if Type action = ActionSearch then
       (case index e of
          None \<Rightarrow> (result False [] (Some ''search unavailable: index is nil'') [], fs)
        | Some idx \<Rightarrow>
            (result True
               (concat (map (\<lambda>r. r @ [CHR 0x0A]) (SearchSymbol idx (Query action)))) None [],
             fs))
     else if Type action = ActionAskUser then
       (result False (Question action) (Some ''user input required'') [], fs)
     else if Type action = ActionComplete then
       (result True (Summary action) None [], fs)
     else if Type action = ActionFail then
       (result False [] (Some (Reason action)) [], fs)
     else (result False [] (Some (''unsupported action type: '' @ Type action)) [], fs))"

section \<open>Tasks (internal/agent/openai\_client.go)\<close>

type_synonym TaskStatus = string

definition TaskStatusPending :: TaskStatus where "TaskStatusPending = ''pending''"
definition TaskStatusInProgress :: TaskStatus where "TaskStatusInProgress = ''in_progress''"
definition TaskStatusCompleted :: TaskStatus where "TaskStatusCompleted = ''completed''"
definition TaskStatusBlocked :: TaskStatus where "TaskStatusBlocked = ''blocked''"

record Task =
  ID :: int
  Description :: string
  Status :: TaskStatus
  Details :: string
  FilePath :: string
  Line :: int

record TaskBreakdown =
  UserPrompt :: string
  Summary :: string
  Tasks :: "Task list"
  TotalTasks :: int
  Completed :: int
  InProgress :: int
  Pending :: int

text \<open>The switch in the loop of \<open>UpdateStats\<close>: a status outside its three cases counts nowhere.\<close>

definition countTask :: "TaskBreakdown \<Rightarrow> Task \<Rightarrow> TaskBreakdown" where
  "countTask tb task =
     (if Status task = TaskStatusCompleted then tb\<lparr>Completed := Completed tb + 1\<rparr>
      else if Status task = TaskStatusInProgress then tb\<lparr>InProgress := InProgress tb + 1\<rparr>
      else if Status task = TaskStatusPending then tb\<lparr>Pending := Pending tb + 1\<rparr>
      else tb)"

definition UpdateStats :: "TaskBreakdown \<Rightarrow> TaskBreakdown" where
  "UpdateStats tb =
     foldl countTask (tb\<lparr>Completed := 0, InProgress := 0, Pending := 0\<rparr>) (Tasks tb)"

text \<open>The search of \<open>UpdateTaskStatus\<close>: the first task with the given id gets the status.\<close>

fun setTaskStatus :: "Task list \<Rightarrow> int \<Rightarrow> TaskStatus \<Rightarrow> Task list option" where
  "setTaskStatus [] taskID status = None"
| "setTaskStatus (task # tasks) taskID status =
     (if ID task = taskID then Some (task\<lparr>Status := status\<rparr> # tasks)
      else (case setTaskStatus tasks taskID status of
              None \<Rightarrow> None
            | Some tasks' \<Rightarrow> Some (task # tasks')))"

definition UpdateTaskStatus ::
  "TaskBreakdown \<Rightarrow> int \<Rightarrow> TaskStatus \<Rightarrow> string option \<times> TaskBreakdown" where
  "UpdateTaskStatus tb taskID status =
     (case setTaskStatus (Tasks tb) taskID status of
        None \<Rightarrow> (Some (''task with ID '' @ intStr taskID @ '' not found''), tb)
      | Some tasks' \<Rightarrow> (None, UpdateStats (tb\<lparr>Tasks := tasks'\<rparr>)))"

definition CreateTaskBreakdown :: "string \<Rightarrow> Task list \<Rightarrow> TaskBreakdown" where
  "CreateTaskBreakdown userPrompt tasks =
     UpdateStats \<lparr>UserPrompt = userPrompt, Summary = [], Tasks = tasks,
       TotalTasks = int (length tasks), Completed = 0, InProgress = 0, Pending = 0\<rparr>"

subsection \<open>Parsing the plan\<close>

text \<open>
  The marks of the task list, in UTF-8: ballot box U+2610, ballot box with check U+2611,
  check mark U+2713, ballot X U+2717, bullet U+2022.
\<close>

definition ballotBox :: string where "ballotBox = [CHR 0xE2, CHR 0x98, CHR 0x90]"
definition ballotBoxChecked :: string where "ballotBoxChecked = [CHR 0xE2, CHR 0x98, CHR 0x91]"
definition checkMark :: string where "checkMark = [CHR 0xE2, CHR 0x9C, CHR 0x93]"
definition ballotX :: string where "ballotX = [CHR 0xE2, CHR 0x9C, CHR 0x97]"
definition bulletMark :: string where "bulletMark = [CHR 0xE2, CHR 0x80, CHR 0xA2]"

text \<open>The class \<open>\s\<close> of Go regular expressions: tab, newline, form feed, return, space.\<close>

definition isReSpace :: "char \<Rightarrow> bool" where
  "isReSpace c = ((of_char c :: nat) \<in> {9, 10, 12, 13, 32})"

text \<open>
  The three patterns are matched against one line, which holds no newline. Each function
  gives the text of the group \<open>(.+)\<close> of the leftmost-first match, \<open>None\<close> when the
  pattern does not match. After the run of white space the group takes the rest of the
  line; when nothing is left, the run gives its last character back to the group.
\<close>

definition groupAfterSpaces :: "string \<Rightarrow> string option" where
  "groupAfterSpaces s =
     (let ws = takeWhile isReSpace s; rest = dropWhile isReSpace s
      in if ws = [] then None
         else if rest \<noteq> [] then Some rest
         else if length ws \<ge> 2 then Some [last ws]
         else None)"

text \<open>
  \<open>checkboxRune s\<close> is the number of bytes of a character of the class
  \<open>[\<dots>\[\]x\s-]\<close> (the four marks, brackets, \<open>x\<close>, white space, hyphen) at the head of
  \<open>s\<close>, and 0 when \<open>s\<close> starts with none.
\<close>

definition checkboxRune :: "string \<Rightarrow> nat" where
  "checkboxRune s =
     (if HasPrefix s ballotBox \<or> HasPrefix s ballotBoxChecked
         \<or> HasPrefix s checkMark \<or> HasPrefix s ballotX then 3
      else (case s of
              [] \<Rightarrow> 0
            | c # cs \<Rightarrow>
                if c = CHR ''['' \<or> c = CHR '']'' \<or> c = CHR ''x'' \<or> c = CHR ''-'' \<or> isReSpace c
                then 1 else 0))"

function checkboxRun :: "string \<Rightarrow> string list \<times> string" where
  "checkboxRun s =
     (if checkboxRune s = 0 then ([], s)
      else (case checkboxRun (drop (checkboxRune s) s) of
              (rs, rest) \<Rightarrow> (take (checkboxRune s) s # rs, rest)))"
  by pat_completeness auto
termination
proof (relation "measure length")
  show "wf (measure length)" by simp
next
  fix s :: string
  assume n: "checkboxRune s \<noteq> 0"
  have "checkboxRune [] = 0"
    by (simp add: checkboxRune_def ballotBox_def ballotBoxChecked_def checkMark_def
        ballotX_def)
  with n have "s \<noteq> []" by auto
  with n show "(drop (checkboxRune s) s, s) \<in> measure length" by simp
qed

declare checkboxRun.simps [simp del]

text \<open>\<open>^[\s]*[\<dots>\[\]x\s-]+\s*(.+)$\<close>\<close>

definition checkboxMatch :: "string \<Rightarrow> string option" where
  "checkboxMatch line =
     (case checkboxRun line of
        (rs, rest) \<Rightarrow>
          if rs = [] then None
          else if rest \<noteq> [] then Some rest
          else if length rs \<ge> 2 then Some (last rs)
          else None)"

text \<open>\<open>^[\s]*\d+\.\s+(.+)$\<close>\<close>

definition numberedMatch :: "string \<Rightarrow> string option" where
  "numberedMatch line =
     (let s1 = dropWhile isReSpace line;
          ds = takeWhile isDigit s1;
          s2 = dropWhile isDigit s1
      in if ds = [] then None
         else (case s2 of
                 [] \<Rightarrow> None
               | c # s3 \<Rightarrow> if c = CHR ''.'' then groupAfterSpaces s3 else None))"

text \<open>\<open>^[\s]*[-*\<bullet>]\s+(.+)$\<close>\<close>

definition bulletMatch :: "string \<Rightarrow> string option" where
  "bulletMatch line =
     (let s1 = dropWhile isReSpace line
      in if HasPrefix s1 bulletMark then groupAfterSpaces (drop 3 s1)
         else (case s1 of
                 [] \<Rightarrow> None
               | c # s2 \<Rightarrow>
                   if c = CHR ''-'' \<or> c = CHR ''*'' then groupAfterSpaces s2 else None))"

text \<open>The loop over the lines of the response; \<open>taskID\<close> is the next id to give out.\<close>

fun parseLines :: "string list \<Rightarrow> int \<Rightarrow> Task list" where
  "parseLines [] taskID = []"
| "parseLines (l # ls) taskID =
     (let line = TrimSpace l
      in if line = [] then parseLines ls taskID
         else
           let status =
                 (if Contains line ballotBoxChecked \<or> Contains line checkMark
                     \<or> Contains line ''[x]''
                  then TaskStatusCompleted else TaskStatusPending);
               matched =
                 (case checkboxMatch line of
                    Some m \<Rightarrow> Some m
                  | None \<Rightarrow>
                      (case numberedMatch line of
                         Some m \<Rightarrow> Some m
                       | None \<Rightarrow> bulletMatch line))
           in (case matched of
                 None \<Rightarrow> parseLines ls taskID
               | Some m \<Rightarrow>
                   if TrimSpace m \<noteq> []
                   then \<lparr>ID = taskID, Description = TrimSpace m, Status = status,
                          Details = [], FilePath = [], Line = 0\<rparr>
                        # parseLines ls (taskID + 1)
                   else parseLines ls taskID))"

definition ParseTasksFromLLM :: "string \<Rightarrow> string + TaskBreakdown" where
  "ParseTasksFromLLM llmResponse =
     (let tasks = parseLines (splitLines llmResponse) 1
      in if length tasks = 0 then Inl ''no tasks found in LLM response''
         else Inr (UpdateStats
                \<lparr>UserPrompt = [], Summary = [], Tasks = tasks,
                  TotalTasks = int (length tasks), Completed = 0, InProgress = 0,
                  Pending = 0\<rparr>))"

section \<open>Planning and the runner (internal/agent/ollama\_client.go, runner.go)\<close>

record Message =
  Role :: string
  Content :: string

definition GenerateTaskPrompt :: "string \<Rightarrow> string \<Rightarrow> string" where
  \<open>GenerateTaskPrompt userPrompt projectContext =
     ''You are a coding agent task planner. Given a user's request and project context, create a detailed task breakdown.\<newline>\<newline>USER REQUEST:\<newline>''
     @ userPrompt
     @ ''\<newline>\<newline>PROJECT CONTEXT:\<newline>''
     @ projectContext
     @ ''\<newline>\<newline>Please create a detailed task breakdown in the following format:\<newline>''
     @ ballotBox @ '' Task 1 description\<newline>''
     @ ballotBox @ '' Task 2 description\<newline>''
     @ ballotBox @ '' Task 3 description\<newline>...\<newline>\<newline>IMPORTANT:\<newline>- Each task should be specific and actionable\<newline>- Include file paths when relevant (e.g., "Check schemas/patient.py for field definitions")\<newline>- Order tasks logically (investigation ''
     @ [CHR 0xE2, CHR 0x86, CHR 0x92] @ '' implementation ''
     @ [CHR 0xE2, CHR 0x86, CHR 0x92] @ '' testing)\<newline>- Be concise but clear\<newline>- Use checkbox format (''
     @ ballotBox @ '') for pending tasks\<newline>- Focus on the most critical tasks first\<newline>\<newline>Your task breakdown:''\<close>

text \<open>
  What the agent does not compute itself is a parameter. The language model is a state
  transformer: from its state and the messages it gives an error or the content of its
  response, and its next state. \<open>Unmarshal\<close> is \<open>json.Unmarshal\<close> into an action.
  \<open>IndexProject\<close> reads the project under a path of the file system.
\<close>

record 'l Env =
  Chat :: "'l \<Rightarrow> Message list \<Rightarrow> (string + string) \<times> 'l"
  Unmarshal :: "string \<Rightarrow> string + Action"
  RunShell :: Shell
  IndexProject :: "FS \<Rightarrow> string \<Rightarrow> string + ProjectIndex"

record CodingAgent =
  projectPath :: string

definition PlanTask ::
  "'l Env \<Rightarrow> CodingAgent \<Rightarrow> string \<Rightarrow> 'l \<times> FS \<Rightarrow> (string + TaskBreakdown) \<times> 'l" where
  "PlanTask env a userPrompt w =
     (case w of (l, fs) \<Rightarrow>
        (case IndexProject env fs (projectPath a) of
           Inl err \<Rightarrow> (Inl (''failed to index project: '' @ err), l)
         | Inr projIdx \<Rightarrow>
             let contextStr = FetchContext projIdx userPrompt 10;
                 taskPrompt = GenerateTaskPrompt userPrompt contextStr;
                 messages =
                   [\<lparr>Role = ''system'',
                     Content = ''You are an expert coding assistant that helps break down development tasks into actionable steps.''\<rparr>,
                    \<lparr>Role = ''user'', Content = taskPrompt\<rparr>]
             in (case Chat env l messages of
                   (Inl err, l') \<Rightarrow> (Inl (''failed to get LLM response: '' @ err), l')
                 | (Inr content, l') \<Rightarrow>
                     (case ParseTasksFromLLM content of
                        Inl err \<Rightarrow> (Inl (''failed to parse tasks: '' @ err), l')
                      | Inr breakdown \<Rightarrow>
                          (Inr (breakdown\<lparr>UserPrompt := userPrompt,
                                  Summary := ''Task breakdown for: '' @ userPrompt\<rparr>), l')))))"

record TaskExecution =
  Task :: Task
  Actions :: "Action list"
  Results :: "ActionResult list"
  Completed :: bool
  Failed :: bool
  FailureMsg :: string

definition buildActionDecisionPrompt :: "string \<Rightarrow> string \<Rightarrow> string list \<Rightarrow> string" where
  \<open>buildActionDecisionPrompt taskDesc contextString history =
     ''CURRENT TASK:\<newline>'' @ taskDesc @ ''\<newline>\<newline>PROJECT CONTEXT:\<newline>'' @ contextString
     @ (if length history > 0
        then ''\<newline>\<newline>PREVIOUS STEPS:\<newline>'' @ concat (map (\<lambda>h. ''- '' @ h @ ''\<newline>'') history)
        else [])
     @ ''\<newline>\<newline>You can take exactly ONE of these actions:\<newline>- read_file: { "type": "read_file", "path": "<relative path>" }\<newline>- edit_file: { "type": "edit_file", "path": "<relative path>", "edits": [{ "old_text": "...", "new_text": "..." }] }\<newline>- create_file: { "type": "create_file", "path": "<relative path>", "content": "full file content" }\<newline>- delete_file: { "type": "delete_file", "path": "<relative path>" }\<newline>- run_command: { "type": "run_command", "command": "<shell command>", "workdir": "<dir>", "timeout": 120 }\<newline>- search: { "type": "search", "query": "<symbol or keyword>" }\<newline>- ask_user: { "type": "ask_user", "question": "<clarifying question>" }\<newline>- complete: { "type": "complete", "summary": "what you accomplished" }\<newline>- fail: { "type": "fail", "reason": "why you cannot proceed" }\<newline>\<newline>Respond with a single JSON object describing the action.''\<close>

definition summarizeStep :: "Action \<Rightarrow> ActionResult \<Rightarrow> string" where
  "summarizeStep action res =
     (let status = (if Success res then ''ok'' else ''err'');
          output0 = TrimSpace (Output res);
          output = (if length output0 > 240 then take 240 output0 @ ''...'' else output0)
      in Type action @ '' '' @ Path action @ '' '' @ [CHR 0xE2, CHR 0x86, CHR 0x92] @ '' ''
         @ status @ '' ('' @ output @ '')'')"

text \<open>
  The loop of \<open>executeTask\<close>; \<open>n\<close> is the number of iterations left, that is
  \<open>maxIterations - i\<close>. The returns on an error of the language model or of the parser
  carry no actions and no results, as in the source.
\<close>

fun executeTaskLoop ::
  "'l Env \<Rightarrow> Executor \<Rightarrow> Task \<Rightarrow> string \<Rightarrow> nat \<Rightarrow> Action list \<Rightarrow> ActionResult list
     \<Rightarrow> string list \<Rightarrow> 'l \<times> FS \<Rightarrow> TaskExecution \<times> ('l \<times> FS)" where
  "executeTaskLoop env executor task contextString 0 actions results history w =
     (\<lparr>Task = task, Actions = actions, Results = results, Completed = False, Failed = True,
       FailureMsg = ''max iterations reached before completion''\<rparr>, w)"
| "executeTaskLoop env executor task contextString (Suc n) actions results history w =
     (case w of (l, fs) \<Rightarrow>
        let prompt = buildActionDecisionPrompt (Description task) contextString history
        in (case Chat env l
                   [\<lparr>Role = ''system'',
                     Content = ''You are executing a coding task. Pick and emit ONE action in JSON. Do not add commentary outside JSON.''\<rparr>,
                    \<lparr>Role = ''user'', Content = prompt\<rparr>] of
              (Inl err, l') \<Rightarrow>
                (\<lparr>Task = task, Actions = [], Results = [], Completed = False, Failed = True,
                  FailureMsg = ''llm error: '' @ err\<rparr>, (l', fs))
            | (Inr content, l') \<Rightarrow>
                (case Unmarshal env (TrimSpace content) of
                   Inl err \<Rightarrow>
                     (\<lparr>Task = task, Actions = [], Results = [], Completed = False,
                       Failed = True,
                       FailureMsg = ''could not parse action JSON: '' @ err\<rparr>, (l', fs))
                 | Inr action \<Rightarrow>
                     (case Execute (RunShell env) executor fs action of
                        (res, fs') \<Rightarrow>
                          if Type action = ActionComplete \<or> Type action = ActionFail then
                            (\<lparr>Task = task, Actions = actions @ [action],
                              Results = results @ [res],
                              Completed = (Type action = ActionComplete \<and> Success res),
                              Failed = (Type action = ActionFail \<or> \<not> Success res),
                              FailureMsg = Error res\<rparr>, (l', fs'))
                          else if \<not> Success res then
                            (\<lparr>Task = task, Actions = actions @ [action],
                              Results = results @ [res], Completed = False, Failed = True,
                              FailureMsg = Error res\<rparr>, (l', fs'))
                          else executeTaskLoop env executor task contextString n
                                 (actions @ [action]) (results @ [res])
                                 (history @ [summarizeStep action res]) (l', fs')))))"

text \<open>
  \<open>executeTask\<close> allocates the history with capacity \<open>maxIterations\<close> before the loop:
  a negative capacity is a run-time panic, the result \<open>None\<close>.
\<close>

definition executeTask ::
  "'l Env \<Rightarrow> Executor \<Rightarrow> Task \<Rightarrow> string \<Rightarrow> int \<Rightarrow> 'l \<times> FS
     \<Rightarrow> (TaskExecution \<times> ('l \<times> FS)) option" where
  "executeTask env executor task contextString maxIterations w =
     (if maxIterations < 0 then None
      else Some (executeTaskLoop env executor task contextString (nat maxIterations)
                   [] [] [] w))"

record RunOptions =
  DryRun :: bool
  MaxIterations :: int
  MaxContextResults :: int

record RunResult =
  Plan :: TaskBreakdown
  Executions :: "TaskExecution list"

text \<open>The switch of \<open>Run\<close> on the outcome of a task.\<close>

definition statusAfter :: "TaskExecution \<Rightarrow> TaskStatus" where
  "statusAfter execResult =
     (if Completed execResult then TaskStatusCompleted
      else if Failed execResult then TaskStatusBlocked
      else TaskStatusPending)"

text \<open>
  The loop of \<open>Run\<close> over the tasks of the plan: \<open>i\<close> is the index of the next task
  and \<open>n\<close> the number of tasks left. The task is read from the plan when its iteration
  starts.
\<close>

fun runTasks ::
  "'l Env \<Rightarrow> Executor \<Rightarrow> ProjectIndex \<Rightarrow> RunOptions \<Rightarrow> nat \<Rightarrow> nat \<Rightarrow> TaskBreakdown
     \<Rightarrow> TaskExecution list \<Rightarrow> 'l \<times> FS
     \<Rightarrow> ((TaskBreakdown \<times> TaskExecution list) \<times> ('l \<times> FS)) option" where
  "runTasks env executor projectIndex opts i 0 plan executions w =
     Some ((plan, executions), w)"
| "runTasks env executor projectIndex opts i (Suc n) plan executions w =
     (let task = Tasks plan ! i;
          plan1 = snd (UpdateTaskStatus plan (ID task) TaskStatusInProgress);
          contextString = FetchContext projectIndex (Description task) (MaxContextResults opts)
      in (case executeTask env executor task contextString (MaxIterations opts) w of
            None \<Rightarrow> None
          | Some (execResult, w') \<Rightarrow>
              let plan2 = snd (UpdateTaskStatus plan1 (ID task) (statusAfter execResult));
                  plan3 = plan2\<lparr>Tasks := (Tasks plan2)
                            [i := (Tasks plan2 ! i)
                               \<lparr>Details := ''Ran '' @ intStr (int (length (Actions execResult)))
                                             @ '' action(s)''\<rparr>]\<rparr>
              in runTasks env executor projectIndex opts (Suc i) n plan3
                   (executions @ [execResult]) w'))"

text \<open>\<open>Run\<close>: \<open>None\<close> is a panic, \<open>Inl\<close> the error it returns.\<close>

definition Run ::
  "'l Env \<Rightarrow> CodingAgent \<Rightarrow> string \<Rightarrow> RunOptions \<Rightarrow> 'l \<times> FS
     \<Rightarrow> ((string + RunResult) \<times> ('l \<times> FS)) option" where
  "Run env a userPrompt opts0 w =
     (case w of (l, fs) \<Rightarrow>
        let opts1 = (if MaxIterations opts0 \<le> 0 then opts0\<lparr>MaxIterations := 25\<rparr> else opts0);
            opts = (if MaxContextResults opts1 \<le> 0 then opts1\<lparr>MaxContextResults := 8\<rparr>
                    else opts1)
        in (case IndexProject env fs (projectPath a) of
              Inl err \<Rightarrow> Some (Inl (''failed to index project: '' @ err), w)
            | Inr projectIndex \<Rightarrow>
                (case PlanTask env a userPrompt w of
                   (Inl err, l') \<Rightarrow> Some (Inl err, (l', fs))
                 | (Inr plan, l') \<Rightarrow>
                     let executor = NewExecutor
                           \<lparr>ProjectRoot = projectPath a, Index = Some projectIndex,
                             DryRun = DryRun opts, Blocklist = []\<rparr>
                     in (case runTasks env executor projectIndex opts 0 (length (Tasks plan))
                                plan [] (l', fs) of
                           None \<Rightarrow> None
                         | Some ((plan', executions), w') \<Rightarrow>
                             Some (Inr \<lparr>Plan = UpdateStats plan', Executions = executions\<rparr>,
                                   w')))))"

section \<open>Notions used in the statements\<close>

text \<open>The four statuses the source names, and the number of tasks that carry a status.\<close>

definition validStatuses :: "TaskStatus list" where
  "validStatuses = [TaskStatusPending, TaskStatusInProgress, TaskStatusCompleted, TaskStatusBlocked]"

definition countStatus :: "TaskStatus \<Rightarrow> Task list \<Rightarrow> int" where
  "countStatus st tasks = int (length (filter (\<lambda>t. Status t = st) tasks))"

text \<open>
  A plan is well formed when \<open>TotalTasks\<close> is the number of its tasks and every task
  carries one of the four statuses.
\<close>

definition wellFormedPlan :: "TaskBreakdown \<Rightarrow> bool" where
  "wellFormedPlan tb =
     (TotalTasks tb = int (length (Tasks tb))
      \<and> list_all (\<lambda>t. Status t \<in> set validStatuses) (Tasks tb))"

text \<open>The terminal actions of the runner's loop.\<close>

definition terminalAction :: "Action \<Rightarrow> bool" where
  "terminalAction a = (Type a = ActionComplete \<or> Type a = ActionFail)"

text \<open>
  What the claim on the iteration cap says of one task execution under the cap \<open>m\<close>: at
  most \<open>m\<close> actions, one result for each, and when the cap is exhausted (all \<open>m\<close>
  iterations ran and none returned: every action non-terminal, every result a success)
  the execution is failed with the message of the cap, which \<open>Run\<close> turns into the
  status blocked.
\<close>

definition respectsCap :: "int \<Rightarrow> TaskExecution \<Rightarrow> bool" where
  "respectsCap m r =
     (length (Actions r) \<le> nat m \<and> length (Results r) = length (Actions r)
      \<and> (length (Actions r) = nat m \<and> list_all (\<lambda>a. \<not> terminalAction a) (Actions r)
            \<and> list_all Success (Results r)
          \<longrightarrow> Failed r \<and> \<not> TaskExecution.Completed r
              \<and> FailureMsg r = ''max iterations reached before completion''
              \<and> statusAfter r = TaskStatusBlocked))"

text \<open>
  A language model for concrete runs: its first answer is a plan of one task, and every
  later answer is parsed as a search for \<open>x\<close>, which succeeds and is never terminal.
\<close>

definition searchingModel :: "nat Env" where
  "searchingModel =
     \<lparr>Chat = (\<lambda>l msgs. (Inr (if l = 0 then ''1. do it'' else ''search''), Suc l)),
      Unmarshal = (\<lambda>s. Inr \<lparr>Type = ActionSearch, Path = [], Edits = [], Content = [],
        Command = [], Workdir = [], Query = ''x'', Reason = [], Timeout = 0, Summary = [],
        Question = []\<rparr>),
      RunShell = (\<lambda>c d t fs. (([], None), fs)),
      IndexProject = (\<lambda>fs p. Inr \<lparr>SearchSymbol = (\<lambda>q. []), FetchContext = (\<lambda>d k. [])\<rparr>)\<rparr>"

text \<open>
  A stand-in for \<open>computeHash\<close> in concrete runs: 64 characters that depend on the
  content (its first characters, padded with zeros).
\<close>

definition sampleHash :: "string \<Rightarrow> string" where
  "sampleHash content = take 64 (content @ replicate 64 (CHR ''0''))"





text \<open>
  The token count of a file in the words of the specification: the sum of the token
  estimates of its chunks, or 500 when it has no chunks.
\<close>

definition specFileTokens :: "FileResult \<Rightarrow> int" where
  "specFileTokens f =
     (if Chunks f = [] then 500 else sum_list (map TokenCount (Chunks f)))"


text \<open>Chunks and search results of the examples: a chunk of a file with a token count.\<close>

definition sampleChunk :: "string \<Rightarrow> int \<Rightarrow> Chunk" where
  "sampleChunk filePath tokens =
     \<lparr>Chunk.ID = take 16 (sampleHash filePath), FilePath = filePath, StartLine = 1, EndLine = 9,
      ChunkType = ''function'', SymbolName = ''F'', Language = ''go'', Content = filePath,
      TokenCount = tokens, Hash = sampleHash filePath\<rparr>"

definition sampleResult :: "string \<Rightarrow> int \<Rightarrow> real \<Rightarrow> SearchResult" where
  "sampleResult filePath tokens score =
     \<lparr>Chunk = sampleChunk filePath tokens, Score = score, Source = ''rag''\<rparr>"

section \<open>Properties of the query analyzer\<close>

lemma toLowerChar_not_upper: "\<not> isUpper (toLowerChar c)"
  by (auto simp: isUpper_def toLowerChar_def)

lemma FindAllString_no_upper: "\<forall>c \<in> set s. \<not> isUpper c \<Longrightarrow> FindAllString s = []"
  by (induction s) auto

text \<open>
  \<open>Classify\<close> lower-cases the query before it looks for symbols, and the symbol pattern
  starts with an upper-case letter: on the lower-cased query it never matches.
\<close>

lemma hasSymbols_ToLower: "hasSymbols (ToLower q) = False"
  by (simp add: hasSymbols_def ToLower_def FindAllString_no_upper toLowerChar_not_upper)

text \<open>
  Claim C2 (classifier truth table). The table asks for structural, semantic, hybrid,
  structural, semantic on the five queries below. Evaluating \<open>Classify\<close> as the source
  computes it gives hybrid, semantic, semantic, hybrid, semantic: the first, third and
  fourth rows differ, because no symbol is ever detected in the lower-cased query.
\<close>

theorem Classify_truth_table_computed:
  "Classify ''UserModel'' = HybridQuery
   \<and> Classify ''show me how login works'' = SemanticQuery
   \<and> Classify ''how does UserModel handle auth'' = SemanticQuery
   \<and> Classify ''callers of parseConfig'' = HybridQuery
   \<and> Classify ''handle expired tokens'' = SemanticQuery"
  by code_simp

section \<open>Properties of the executor\<close>

lemmas ActionType_defs = ActionReadFile_def ActionEditFile_def ActionCreateFile_def
  ActionDeleteFile_def ActionRunCommand_def ActionSearch_def ActionAskUser_def
  ActionComplete_def ActionFail_def

lemma HasPrefix_iff: "HasPrefix s p \<longleftrightarrow> (\<exists>t. s = p @ t)"
  by (induction s p rule: HasPrefix.induct) auto

lemma Index_Some: "strIndex s sub = Some i \<Longrightarrow> i \<le> length s \<and> HasPrefix (drop i s) sub \<and> (\<forall>j<i. \<not> HasPrefix (drop j s) sub)"
proof (induction s arbitrary: i)
  case Nil
  then show ?case by (auto split: if_splits)
next
  case (Cons c cs)
  show ?case
  proof (cases "HasPrefix (c # cs) sub")
    case True
    with Cons.prems show ?thesis by simp
  next
    case False
    with Cons.prems obtain k where k: "strIndex cs sub = Some k" "i = Suc k"
      by (auto split: option.splits)
    from Cons.IH[OF k(1)] False k(2) show ?thesis
      by (auto simp: less_Suc_eq_0_disj)
  qed
qed

lemma Index_None: "strIndex s sub = None \<Longrightarrow> \<not> HasPrefix (drop j s) sub"
proof (induction s arbitrary: j)
  case Nil
  then show ?case by (cases sub) (auto split: if_splits)
next
  case (Cons c cs)
  then show ?case
    by (cases j) (auto split: if_splits option.splits)
qed

lemma Contains_iff: "Contains s sub \<longleftrightarrow> (\<exists>pre post. s = pre @ sub @ post)"
proof
  assume "Contains s sub"
  then obtain i where i: "strIndex s sub = Some i" by (auto simp: Contains_def)
  from Index_Some[OF i] obtain t where "drop i s = sub @ t" by (auto simp: HasPrefix_iff)
  then have "s = take i s @ sub @ t" by (metis append_take_drop_id)
  then show "\<exists>pre post. s = pre @ sub @ post" by blast
next
  assume "\<exists>pre post. s = pre @ sub @ post"
  then obtain pre post where s: "s = pre @ sub @ post" by blast
  then have "HasPrefix (drop (length pre) s) sub" by (simp add: HasPrefix_iff)
  then show "Contains s sub" using Index_None[of s sub "length pre"]
    by (auto simp: Contains_def)
qed

text \<open>
  \<open>Replace1\<close> replaces the leftmost occurrence: no occurrence of \<open>old\<close> starts
  before the one it rewrites.
\<close>

lemma Replace1_first_occurrence:
  assumes "Contains s old"
  shows "\<exists>pre post. s = pre @ old @ post \<and> Replace1 s old new = pre @ new @ post
           \<and> (\<forall>pre' post'. s = pre' @ old @ post' \<longrightarrow> length pre \<le> length pre')"
proof -
  from assms obtain i where i: "strIndex s old = Some i" by (auto simp: Contains_def)
  from Index_Some[OF i] obtain t where t: "drop i s = old @ t" and le: "i \<le> length s"
    and first: "\<forall>j<i. \<not> HasPrefix (drop j s) old"
    by (auto simp: HasPrefix_iff)
  have s: "s = take i s @ old @ t" using t by (metis append_take_drop_id)
  have "drop (i + length old) s = t"
    using t by (metis add.commute append_eq_conv_conj drop_drop)
  then have r: "Replace1 s old new = take i s @ new @ t"
    by (simp add: Replace1_def i)
  have "length (take i s) \<le> length pre'" if "s = pre' @ old @ post'" for pre' post'
  proof (rule ccontr)
    assume "\<not> length (take i s) \<le> length pre'"
    then have "length pre' < i" using le by simp
    moreover have "HasPrefix (drop (length pre') s) old" using that by (simp add: HasPrefix_iff)
    ultimately show False using first by blast
  qed
  with s r show ?thesis by blast
qed

text \<open>
  The three actions that call \<open>checkPath\<close> (create, edit, delete) refuse a path whose
  absolute form does not start with the cleaned project root, and leave the file system
  as it was.
\<close>

lemma Execute_checked_escape:
  assumes "Type a = ActionCreateFile \<or> Type a = ActionEditFile \<or> Type a = ActionDeleteFile"
    and "\<not> HasPrefix (abs_path e (Path a)) (Clean (projectRoot e))"
  shows "Execute sh e fs a = (result False [] (Some (''path '' @ Path a @ '' escapes project root'')) [], fs)"
  using assms by (auto simp: Execute_def checkPath_def ActionType_defs)

lemma applyEdits_None_iff:
  "applyEdits content edits = None \<longleftrightarrow>
     (\<exists>i<length edits. \<not> Contains (foldl (\<lambda>c ed. Replace1 c (OldText ed) (NewText ed)) content (take i edits)) (OldText (edits ! i)))"
proof (induction edits arbitrary: content)
  case Nil
  then show ?case by simp
next
  case (Cons ed edits)
  show ?case
  proof (cases "Contains content (OldText ed)")
    case False
    then show ?thesis by (auto intro: exI[of _ 0])
  next
    case True
    have "(\<exists>i<length (ed # edits). \<not> Contains (foldl (\<lambda>c ed. Replace1 c (OldText ed) (NewText ed)) content (take i (ed # edits))) (OldText ((ed # edits) ! i)))
       \<longleftrightarrow> (\<exists>i<length edits. \<not> Contains (foldl (\<lambda>c ed. Replace1 c (OldText ed) (NewText ed)) (Replace1 content (OldText ed) (NewText ed)) (take i edits)) (OldText (edits ! i)))"
      (is "?L \<longleftrightarrow> ?R")
    proof
      assume ?L
      then obtain i where i: "i < length (ed # edits)" "\<not> Contains (foldl (\<lambda>c ed. Replace1 c (OldText ed) (NewText ed)) content (take i (ed # edits))) (OldText ((ed # edits) ! i))"
        by blast
      with True obtain k where "i = Suc k" by (cases i) auto
      with i show ?R by auto
    next
      assume ?R
      then obtain k where "k < length edits" "\<not> Contains (foldl (\<lambda>c ed. Replace1 c (OldText ed) (NewText ed)) (Replace1 content (OldText ed) (NewText ed)) (take k edits)) (OldText (edits ! k))"
        by blast
      then show ?L by (intro exI[of _ "Suc k"]) simp
    qed
    with True Cons.IH[of "Replace1 content (OldText ed) (NewText ed)"] show ?thesis by simp
  qed
qed

lemma applyEdits_Some:
  "applyEdits content edits = Some content' \<Longrightarrow>
     content' = foldl (\<lambda>c ed. Replace1 c (OldText ed) (NewText ed)) content edits"
  by (induction edits arbitrary: content) (auto split: if_splits)

lemma Contains_old_text: "Contains (''old_text not found in '' @ p) ''old_text not found''"
  by (simp add: Contains_def)

lemma not_Contains_no_edits: "\<not> Contains ''no edits provided'' ''old_text not found''"
  by code_simp

lemma not_Contains_empty: "\<not> Contains [] ''old_text not found''"
  by (simp add: Contains_def)

text \<open>
  Whatever the path and the file system: an \<open>edit_file\<close> action without edits fails, a
  failed \<open>edit_file\<close> action writes nothing, and in dry-run nothing is written at all.
\<close>

lemma edit_file_no_edits:
  "Type a = ActionEditFile \<Longrightarrow> Edits a = [] \<Longrightarrow>
     \<not> Success (fst (Execute sh e fs a)) \<and> snd (Execute sh e fs a) = fs"
  by (simp add: Execute_def ActionType_defs result_def split: option.splits)

lemma edit_file_dry_run:
  "Type a = ActionEditFile \<Longrightarrow> dryRun e \<Longrightarrow> snd (Execute sh e fs a) = fs"
  by (simp add: Execute_def ActionType_defs split: option.splits sum.splits)

lemma edit_file_failure_keeps_files:
  "Type a = ActionEditFile \<Longrightarrow> \<not> Success (fst (Execute sh e fs a)) \<Longrightarrow>
     snd (Execute sh e fs a) = fs"
  by (simp add: Execute_def ActionType_defs result_def os_WriteFile_def
           split: option.splits sum.splits if_splits)


text \<open>
  Claim C7 (edit\_file). For an \<open>edit_file\<close> action whose path passes \<open>checkPath\<close> and
  whose file can be read: with no edits the action fails; the error message contains
  \<open>old_text not found\<close> exactly when some edit's \<open>old_text\<close> does not occur in the
  content as edited by the edits before it, and then nothing is written; otherwise the
  action succeeds, every edit has replaced the first occurrence of its \<open>old_text\<close> in
  the given order, and the new content is written unless the executor is in dry-run.
\<close>

theorem edit_file_behaviour:
  assumes ty: "Type a = ActionEditFile"
    and ok: "checkPath e (Path a) = None"
    and rd: "os_ReadFile fs (abs_path e (Path a)) = Inr content"
  shows "(Edits a = [] \<longrightarrow> \<not> Success (fst (Execute sh e fs a)))
    \<and> (Contains (Error (fst (Execute sh e fs a))) ''old_text not found'' \<longleftrightarrow>
         (\<exists>i<length (Edits a).
            \<not> Contains (foldl (\<lambda>c ed. Replace1 c (OldText ed) (NewText ed)) content
                           (take i (Edits a)))
                 (OldText (Edits a ! i))))
    \<and> ((\<exists>i<length (Edits a).
            \<not> Contains (foldl (\<lambda>c ed. Replace1 c (OldText ed) (NewText ed)) content
                           (take i (Edits a)))
                 (OldText (Edits a ! i)))
         \<longrightarrow> \<not> Success (fst (Execute sh e fs a)) \<and> snd (Execute sh e fs a) = fs)
    \<and> (Edits a \<noteq> [] \<and>
        \<not> (\<exists>i<length (Edits a).
            \<not> Contains (foldl (\<lambda>c ed. Replace1 c (OldText ed) (NewText ed)) content
                           (take i (Edits a)))
                 (OldText (Edits a ! i)))
         \<longrightarrow> Success (fst (Execute sh e fs a))
           \<and> snd (Execute sh e fs a) =
               (if dryRun e then fs
                else fs(Clean (abs_path e (Path a)) \<mapsto>
                        foldl (\<lambda>c ed. Replace1 c (OldText ed) (NewText ed)) content (Edits a))))"
proof (cases "Edits a = []")
  case True
  with ty ok show ?thesis
    by (simp add: Execute_def ActionType_defs result_def not_Contains_no_edits)
next
  case False
  show ?thesis
  proof (cases "applyEdits content (Edits a)")
    case None
    then have miss: "\<exists>i<length (Edits a).
            \<not> Contains (foldl (\<lambda>c ed. Replace1 c (OldText ed) (NewText ed)) content
                           (take i (Edits a)))
                 (OldText (Edits a ! i))"
      by (simp add: applyEdits_None_iff)
    have "Execute sh e fs a =
        (result False [] (Some (''old_text not found in '' @ Path a)) [], fs)"
      using ty ok rd False None by (simp add: Execute_def ActionType_defs)
    with miss False show ?thesis
      by (simp add: result_def Contains_def)
  next
    case (Some content')
    then have nomiss: "\<not> (\<exists>i<length (Edits a).
            \<not> Contains (foldl (\<lambda>c ed. Replace1 c (OldText ed) (NewText ed)) content
                           (take i (Edits a)))
                 (OldText (Edits a ! i)))"
      using applyEdits_None_iff[of content "Edits a"] by simp
    have c': "content' = foldl (\<lambda>c ed. Replace1 c (OldText ed) (NewText ed)) content (Edits a)"
      using Some by (rule applyEdits_Some)
    have "Execute sh e fs a =
        (if dryRun e then (result True (''[dry-run] would edit '' @ Path a) None [], fs)
         else (result True (''edited '' @ Path a) None [Path a],
               fs(Clean (abs_path e (Path a)) \<mapsto> content')))"
      using ty ok rd False Some by (simp add: Execute_def ActionType_defs os_WriteFile_def)
    with nomiss False c' show ?thesis
      by (simp add: result_def not_Contains_empty)
  qed
qed


text \<open>
  The theorem at a concrete file: \<open>a.txt\<close> under \<open>/proj\<close> holds \<open>hello world\<close>, one
  edit turns \<open>world\<close> into \<open>there\<close>.
\<close>

theorem edit_file_behaviour_witness:
  "Type \<lparr>Type = ActionEditFile, Path = ''a.txt'',
      Edits = [\<lparr>OldText = ''world'', NewText = ''there''\<rparr>], Content = [], Command = [],
      Workdir = [], Query = [], Reason = [], Timeout = 0, Summary = [], Question = []\<rparr>
     = ActionEditFile
   \<and> checkPath \<lparr>projectRoot = ''/proj'', index = None, dryRun = False, blocklist = []\<rparr>
       ''a.txt'' = None
   \<and> os_ReadFile [''/proj/a.txt'' \<mapsto> ''hello world'']
       (abs_path \<lparr>projectRoot = ''/proj'', index = None, dryRun = False, blocklist = []\<rparr>
          ''a.txt'') = Inr ''hello world''
   \<and> Success (fst (Execute (\<lambda>c w t fs. (([], None), fs))
        \<lparr>projectRoot = ''/proj'', index = None, dryRun = False, blocklist = []\<rparr>
        [''/proj/a.txt'' \<mapsto> ''hello world'']
        \<lparr>Type = ActionEditFile, Path = ''a.txt'',
          Edits = [\<lparr>OldText = ''world'', NewText = ''there''\<rparr>], Content = [], Command = [],
          Workdir = [], Query = [], Reason = [], Timeout = 0, Summary = [], Question = []\<rparr>))
   \<and> snd (Execute (\<lambda>c w t fs. (([], None), fs))
        \<lparr>projectRoot = ''/proj'', index = None, dryRun = False, blocklist = []\<rparr>
        [''/proj/a.txt'' \<mapsto> ''hello world'']
        \<lparr>Type = ActionEditFile, Path = ''a.txt'',
          Edits = [\<lparr>OldText = ''world'', NewText = ''there''\<rparr>], Content = [], Command = [],
          Workdir = [], Query = [], Reason = [], Timeout = 0, Summary = [], Question = []\<rparr>)
       = [''/proj/a.txt'' \<mapsto> ''hello there'']"
proof -
  let ?e = "\<lparr>projectRoot = ''/proj'', index = None, dryRun = False, blocklist = []\<rparr>"
  let ?a = "\<lparr>Type = ActionEditFile, Path = ''a.txt'',
      Edits = [\<lparr>OldText = ''world'', NewText = ''there''\<rparr>], Content = [], Command = [],
      Workdir = [], Query = [], Reason = [], Timeout = 0, Summary = [], Question = []\<rparr>"
  let ?fs = "[''/proj/a.txt'' \<mapsto> ''hello world'']"
  have h1: "Type ?a = ActionEditFile" by simp
  have h2: "checkPath ?e (Path ?a) = None" by code_simp
  have p: "abs_path ?e ''a.txt'' = ''/proj/a.txt''" by code_simp
  have c: "Clean ''/proj/a.txt'' = ''/proj/a.txt''" by code_simp
  have h3: "os_ReadFile ?fs (abs_path ?e (Path ?a)) = Inr ''hello world''"
    by (simp add: p c os_ReadFile_def)
  have r: "Replace1 ''hello world'' ''world'' ''there'' = ''hello there''" by code_simp
  have k: "Contains ''hello world'' ''world''" by code_simp
  from edit_file_behaviour[OF h1 h2 h3, of "\<lambda>c w t fs. (([], None), fs)"] h1 h2 h3
  show ?thesis by (simp add: p c r k)
qed

text \<open>
  Claim C1 (path safety). The claim asks that every action on a path outside the project
  root fails. The \<open>read_file\<close> case of \<open>Execute\<close> never calls \<open>checkPath\<close>: with
  project root \<open>/proj\<close>, reading \<open>../outside.txt\<close> resolves to \<open>/outside.txt\<close>, which
  does not start with the root, and the action succeeds and returns the file's content.
\<close>

theorem read_file_outside_root:
  "\<not> HasPrefix
       (abs_path \<lparr>projectRoot = ''/proj'', index = None, dryRun = False, blocklist = []\<rparr>
          ''../outside.txt'')
       (Clean (projectRoot
          \<lparr>projectRoot = ''/proj'', index = None, dryRun = False, blocklist = []\<rparr>))
   \<and> Execute (\<lambda>c w t fs. (([], None), fs))
        \<lparr>projectRoot = ''/proj'', index = None, dryRun = False, blocklist = []\<rparr>
        [''/outside.txt'' \<mapsto> ''secret'']
        \<lparr>Type = ActionReadFile, Path = ''../outside.txt'', Edits = [], Content = [],
          Command = [], Workdir = [], Query = [], Reason = [], Timeout = 0, Summary = [],
          Question = []\<rparr>
       = (\<lparr>Success = True, Output = ''secret'', Error = [], FilesChanged = []\<rparr>,
          [''/outside.txt'' \<mapsto> ''secret''])"
proof -
  let ?e = "\<lparr>projectRoot = ''/proj'', index = None, dryRun = False, blocklist = []\<rparr>"
  have p: "abs_path ?e ''../outside.txt'' = ''/outside.txt''" by code_simp
  have c: "Clean ''/outside.txt'' = ''/outside.txt''" by code_simp
  have r: "Clean ''/proj'' = ''/proj''" by code_simp
  show ?thesis
    by (simp add: p c r Execute_def ActionType_defs os_ReadFile_def result_def)
qed


section \<open>Properties of the task breakdown\<close>

lemmas TaskStatus_defs = TaskStatusPending_def TaskStatusInProgress_def
  TaskStatusCompleted_def TaskStatusBlocked_def

lemma countTask_fields:
  "Tasks (countTask tb t) = Tasks tb"
  "TotalTasks (countTask tb t) = TotalTasks tb"
  "TaskBreakdown.Completed (countTask tb t)
     = TaskBreakdown.Completed tb + countStatus TaskStatusCompleted [t]"
  "InProgress (countTask tb t) = InProgress tb + countStatus TaskStatusInProgress [t]"
  "Pending (countTask tb t) = Pending tb + countStatus TaskStatusPending [t]"
  by (simp_all add: countTask_def countStatus_def TaskStatus_defs)

lemma countStatus_Cons: "countStatus st (t # ts) = countStatus st [t] + countStatus st ts"
  by (simp add: countStatus_def)

lemma foldl_countTask:
  "Tasks (foldl countTask tb ts) = Tasks tb
   \<and> TotalTasks (foldl countTask tb ts) = TotalTasks tb
   \<and> TaskBreakdown.Completed (foldl countTask tb ts)
       = TaskBreakdown.Completed tb + countStatus TaskStatusCompleted ts
   \<and> InProgress (foldl countTask tb ts) = InProgress tb + countStatus TaskStatusInProgress ts
   \<and> Pending (foldl countTask tb ts) = Pending tb + countStatus TaskStatusPending ts"
proof (induction ts arbitrary: tb)
  case Nil
  show ?case by (simp add: countStatus_def)
next
  case (Cons t ts)
  from Cons.IH[of "countTask tb t"] show ?case
    by (simp add: countTask_fields countStatus_Cons[of _ t ts])
qed

lemma UpdateStats_counts:
  "Tasks (UpdateStats tb) = Tasks tb"
  "TotalTasks (UpdateStats tb) = TotalTasks tb"
  "TaskBreakdown.Completed (UpdateStats tb) = countStatus TaskStatusCompleted (Tasks tb)"
  "InProgress (UpdateStats tb) = countStatus TaskStatusInProgress (Tasks tb)"
  "Pending (UpdateStats tb) = countStatus TaskStatusPending (Tasks tb)"
  by (simp_all add: UpdateStats_def foldl_countTask)

lemma countStatus_partition:
  "list_all (\<lambda>t. Status t \<in> set validStatuses) ts \<Longrightarrow>
   countStatus TaskStatusCompleted ts + countStatus TaskStatusInProgress ts
     + countStatus TaskStatusPending ts + countStatus TaskStatusBlocked ts = int (length ts)"
  by (induction ts) (auto simp: countStatus_def validStatuses_def TaskStatus_defs)

lemma setTaskStatus_Some:
  "setTaskStatus ts taskID st = Some ts' \<Longrightarrow>
     length ts' = length ts \<and> map ID ts' = map ID ts
     \<and> (list_all (\<lambda>t. Status t \<in> set validStatuses) ts \<longrightarrow> st \<in> set validStatuses
          \<longrightarrow> list_all (\<lambda>t. Status t \<in> set validStatuses) ts')"
  by (induction ts arbitrary: ts') (auto split: if_splits option.splits)

lemma parseLines_statuses:
  "list_all (\<lambda>t. Status t \<in> set validStatuses) (parseLines ls k)"
  by (induction ls k rule: parseLines.induct)
     (auto simp: Let_def validStatuses_def split: option.splits)


lemma UpdateStats_sum:
  assumes "wellFormedPlan tb"
  shows "wellFormedPlan (UpdateStats tb)
    \<and> TaskBreakdown.Completed (UpdateStats tb) + InProgress (UpdateStats tb)
        + Pending (UpdateStats tb) + countStatus TaskStatusBlocked (Tasks (UpdateStats tb))
      = TotalTasks (UpdateStats tb)"
  using assms countStatus_partition[of "Tasks tb"]
  by (simp add: wellFormedPlan_def UpdateStats_counts)

text \<open>
  Claim C3 (plan counters), as amended. The breakdown stores three counters, \<open>Completed\<close>,
  \<open>InProgress\<close> and \<open>Pending\<close>; it has no counter of blocked tasks. For the plan that
  \<open>ParseTasksFromLLM\<close> returns, and after every successful \<open>UpdateTaskStatus\<close> of a
  well-formed plan to one of the four statuses, the three counters plus the number of
  tasks whose status is blocked equal \<open>TotalTasks\<close>, and the plan stays well formed.
\<close>

theorem plan_counters_consistent:
  "(ParseTasksFromLLM llmResponse = Inr tb \<longrightarrow>
      wellFormedPlan tb
      \<and> TaskBreakdown.Completed tb + InProgress tb + Pending tb
          + countStatus TaskStatusBlocked (Tasks tb) = TotalTasks tb)
   \<and> (wellFormedPlan tb0 \<and> status \<in> set validStatuses
        \<and> UpdateTaskStatus tb0 taskID status = (None, tb1) \<longrightarrow>
      wellFormedPlan tb1
      \<and> TaskBreakdown.Completed tb1 + InProgress tb1 + Pending tb1
          + countStatus TaskStatusBlocked (Tasks tb1) = TotalTasks tb1)"
proof (intro conjI impI)
  assume p: "ParseTasksFromLLM llmResponse = Inr tb"
  define tb' where "tb' = \<lparr>UserPrompt = [], Summary = [],
      Tasks = parseLines (splitLines llmResponse) 1,
      TotalTasks = int (length (parseLines (splitLines llmResponse) 1)),
      Completed = 0, InProgress = 0, Pending = 0\<rparr>"
  from p have tb: "tb = UpdateStats tb'"
    by (auto simp: ParseTasksFromLLM_def Let_def tb'_def split: if_splits)
  have "wellFormedPlan tb'"
    by (simp add: wellFormedPlan_def tb'_def parseLines_statuses)
  from UpdateStats_sum[OF this] tb
  show "wellFormedPlan tb"
    and "TaskBreakdown.Completed tb + InProgress tb + Pending tb
          + countStatus TaskStatusBlocked (Tasks tb) = TotalTasks tb"
    by simp_all
next
  assume a: "wellFormedPlan tb0 \<and> status \<in> set validStatuses
        \<and> UpdateTaskStatus tb0 taskID status = (None, tb1)"
  then obtain ts where ts: "setTaskStatus (Tasks tb0) taskID status = Some ts"
      and tb1: "tb1 = UpdateStats (tb0\<lparr>Tasks := ts\<rparr>)"
    by (auto simp: UpdateTaskStatus_def split: option.splits)
  from setTaskStatus_Some[OF ts] a have "wellFormedPlan (tb0\<lparr>Tasks := ts\<rparr>)"
    by (simp add: wellFormedPlan_def)
  from UpdateStats_sum[OF this] tb1
  show "wellFormedPlan tb1"
    and "TaskBreakdown.Completed tb1 + InProgress tb1 + Pending tb1
          + countStatus TaskStatusBlocked (Tasks tb1) = TotalTasks tb1"
    by simp_all
qed

text \<open>The theorem at the plan parsed from \<open>1. do it\<close>, whose task is then blocked.\<close>

theorem plan_counters_consistent_witness:
  "ParseTasksFromLLM ''1. do it''
     = Inr \<lparr>UserPrompt = [], Summary = [],
            Tasks = [\<lparr>ID = 1, Description = ''do it'', Status = TaskStatusPending,
                      Details = [], FilePath = [], Line = 0\<rparr>],
            TotalTasks = 1, Completed = 0, InProgress = 0, Pending = 1\<rparr>
   \<and> wellFormedPlan
        \<lparr>UserPrompt = [], Summary = [],
          Tasks = [\<lparr>ID = 1, Description = ''do it'', Status = TaskStatusPending,
                    Details = [], FilePath = [], Line = 0\<rparr>],
          TotalTasks = 1, Completed = 0, InProgress = 0, Pending = 1\<rparr>
   \<and> TaskStatusBlocked \<in> set validStatuses
   \<and> UpdateTaskStatus
        \<lparr>UserPrompt = [], Summary = [],
          Tasks = [\<lparr>ID = 1, Description = ''do it'', Status = TaskStatusPending,
                    Details = [], FilePath = [], Line = 0\<rparr>],
          TotalTasks = 1, Completed = 0, InProgress = 0, Pending = 1\<rparr>
        1 TaskStatusBlocked
     = (None,
        \<lparr>UserPrompt = [], Summary = [],
          Tasks = [\<lparr>ID = 1, Description = ''do it'', Status = TaskStatusBlocked,
                    Details = [], FilePath = [], Line = 0\<rparr>],
          TotalTasks = 1, Completed = 0, InProgress = 0, Pending = 0\<rparr>)
   \<and> (0::int) + 0 + 0
       + countStatus TaskStatusBlocked
           [\<lparr>ID = 1, Description = ''do it'', Status = TaskStatusBlocked,
             Details = [], FilePath = [], Line = 0\<rparr>] = 1"
proof -
  let ?t0 = "\<lparr>ID = 1, Description = ''do it'', Status = TaskStatusPending,
               Details = [], FilePath = [], Line = 0\<rparr>"
  let ?t1 = "\<lparr>ID = 1, Description = ''do it'', Status = TaskStatusBlocked,
               Details = [], FilePath = [], Line = 0\<rparr>"
  let ?p0 = "\<lparr>UserPrompt = [], Summary = [], Tasks = [?t0],
               TotalTasks = 1, Completed = 0, InProgress = 0, Pending = 1\<rparr>"
  let ?p1 = "\<lparr>UserPrompt = [], Summary = [], Tasks = [?t1],
               TotalTasks = 1, Completed = 0, InProgress = 0, Pending = 0\<rparr>"
  have h1: "ParseTasksFromLLM ''1. do it'' = Inr ?p0" by code_simp
  have h2: "TaskStatusBlocked \<in> set validStatuses" by (simp add: validStatuses_def)
  have h3: "UpdateTaskStatus ?p0 1 TaskStatusBlocked = (None, ?p1)" by code_simp
  from plan_counters_consistent[of "''1. do it''" ?p0 ?p0 TaskStatusBlocked 1 ?p1] h1 h2 h3
  show ?thesis by simp
qed

text \<open>
  The claim as stated speaks of the stored counters. With the plan parsed from
  \<open>1. do it\<close>, blocking its only task leaves the three stored counters at 0 while
  \<open>TotalTasks\<close> is 1.
\<close>

theorem stored_counters_miss_blocked:
  "ParseTasksFromLLM ''1. do it''
     = Inr \<lparr>UserPrompt = [], Summary = [],
            Tasks = [\<lparr>ID = 1, Description = ''do it'', Status = TaskStatusPending,
                      Details = [], FilePath = [], Line = 0\<rparr>],
            TotalTasks = 1, Completed = 0, InProgress = 0, Pending = 1\<rparr>
   \<and> fst (UpdateTaskStatus
        \<lparr>UserPrompt = [], Summary = [],
          Tasks = [\<lparr>ID = 1, Description = ''do it'', Status = TaskStatusPending,
                    Details = [], FilePath = [], Line = 0\<rparr>],
          TotalTasks = 1, Completed = 0, InProgress = 0, Pending = 1\<rparr>
        1 TaskStatusBlocked) = None
   \<and> TaskBreakdown.Completed (snd (UpdateTaskStatus
        \<lparr>UserPrompt = [], Summary = [],
          Tasks = [\<lparr>ID = 1, Description = ''do it'', Status = TaskStatusPending,
                    Details = [], FilePath = [], Line = 0\<rparr>],
          TotalTasks = 1, Completed = 0, InProgress = 0, Pending = 1\<rparr>
        1 TaskStatusBlocked))
     + InProgress (snd (UpdateTaskStatus
        \<lparr>UserPrompt = [], Summary = [],
          Tasks = [\<lparr>ID = 1, Description = ''do it'', Status = TaskStatusPending,
                    Details = [], FilePath = [], Line = 0\<rparr>],
          TotalTasks = 1, Completed = 0, InProgress = 0, Pending = 1\<rparr>
        1 TaskStatusBlocked))
     + Pending (snd (UpdateTaskStatus
        \<lparr>UserPrompt = [], Summary = [],
          Tasks = [\<lparr>ID = 1, Description = ''do it'', Status = TaskStatusPending,
                    Details = [], FilePath = [], Line = 0\<rparr>],
          TotalTasks = 1, Completed = 0, InProgress = 0, Pending = 1\<rparr>
        1 TaskStatusBlocked)) = 0
   \<and> TotalTasks (snd (UpdateTaskStatus
        \<lparr>UserPrompt = [], Summary = [],
          Tasks = [\<lparr>ID = 1, Description = ''do it'', Status = TaskStatusPending,
                    Details = [], FilePath = [], Line = 0\<rparr>],
          TotalTasks = 1, Completed = 0, InProgress = 0, Pending = 1\<rparr>
        1 TaskStatusBlocked)) = 1"
  by code_simp

section \<open>Properties of the runner\<close>

lemma executeTaskLoop_Suc_cases:
  assumes "executeTaskLoop env ex task ctx (Suc n) acts ress hist w = (r, w')"
  obtains (early) "Actions r = []" "Results r = []"
  | (stop) action res where "Actions r = acts @ [action]" "Results r = ress @ [res]"
      "terminalAction action \<or> \<not> Success res"
  | (continue) action res w1 hist1 where "\<not> terminalAction action" "Success res"
      "executeTaskLoop env ex task ctx n (acts @ [action]) (ress @ [res]) hist1 w1 = (r, w')"
proof -
  obtain l fs where w: "w = (l, fs)" by (cases w)
  obtain resp l' where c: "Chat env l
       [\<lparr>Role = ''system'',
         Content = ''You are executing a coding task. Pick and emit ONE action in JSON. Do not add commentary outside JSON.''\<rparr>,
        \<lparr>Role = ''user'',
         Content = buildActionDecisionPrompt (Description task) ctx hist\<rparr>] = (resp, l')"
    by (cases "Chat env l
       [\<lparr>Role = ''system'',
         Content = ''You are executing a coding task. Pick and emit ONE action in JSON. Do not add commentary outside JSON.''\<rparr>,
        \<lparr>Role = ''user'',
         Content = buildActionDecisionPrompt (Description task) ctx hist\<rparr>]")
  show thesis
  proof (cases resp)
    case (Inl err)
    with assms w c show thesis by (intro early) auto
  next
    case (Inr content)
    show thesis
    proof (cases "Unmarshal env (TrimSpace content)")
      case (Inl err)
      with assms w c Inr show thesis by (intro early) auto
    next
      case act: (Inr action)
      obtain res fs' where e: "Execute (RunShell env) ex fs action = (res, fs')"
        by (cases "Execute (RunShell env) ex fs action")
      show thesis
      proof (cases "terminalAction action \<or> \<not> Success res")
        case True
        with assms w c Inr act e show thesis
          by (intro stop[of action res]) (auto simp: terminalAction_def split: if_splits)
      next
        case False
        with assms w c Inr act e show thesis
          by (intro continue[of action res "hist @ [summarizeStep action res]" "(l', fs')"])
             (auto simp: terminalAction_def)
      qed
    qed
  qed
qed

lemma executeTaskLoop_bounds:
  assumes "executeTaskLoop env ex task ctx n acts ress hist w = (r, w')"
    and "length ress = length acts"
  shows "length (Actions r) \<le> length acts + n \<and> length (Results r) = length (Actions r)"
  using assms
proof (induction n arbitrary: acts ress hist w)
  case 0
  then show ?case by auto
next
  case (Suc n)
  from Suc.prems(1) show ?case
  proof (cases rule: executeTaskLoop_Suc_cases)
    case early
    then show ?thesis by simp
  next
    case (stop action res)
    with Suc.prems(2) show ?thesis by simp
  next
    case (continue action res w1 hist1)
    from Suc.IH[OF continue(3)] Suc.prems(2) show ?thesis by simp
  qed
qed

lemma executeTaskLoop_exhausted:
  assumes "executeTaskLoop env ex task ctx n acts ress hist w = (r, w')"
    and "length ress = length acts"
    and "length (Actions r) = length acts + n"
    and "list_all (\<lambda>a. \<not> terminalAction a) (Actions r)"
    and "list_all Success (Results r)"
  shows "Failed r \<and> \<not> TaskExecution.Completed r
         \<and> FailureMsg r = ''max iterations reached before completion''"
  using assms
proof (induction n arbitrary: acts ress hist w)
  case 0
  then show ?case by auto
next
  case (Suc n)
  from Suc.prems(1) show ?case
  proof (cases rule: executeTaskLoop_Suc_cases)
    case early
    with Suc.prems(3) show ?thesis by simp
  next
    case (stop action res)
    with Suc.prems(4,5) show ?thesis by auto
  next
    case (continue action res w1 hist1)
    from Suc.IH[OF continue(3)] Suc.prems show ?thesis by simp
  qed
qed

lemma statusAfter_failed:
  "Failed r \<Longrightarrow> \<not> TaskExecution.Completed r \<Longrightarrow> statusAfter r = TaskStatusBlocked"
  by (simp add: statusAfter_def)

lemma executeTask_returns:
  assumes "0 \<le> m"
  shows "\<exists>r w'. executeTask env ex task ctx m w = Some (r, w')
           \<and> length (Actions r) \<le> nat m \<and> length (Results r) = length (Actions r)
           \<and> (length (Actions r) = nat m \<and> list_all (\<lambda>a. \<not> terminalAction a) (Actions r)
                \<and> list_all Success (Results r)
              \<longrightarrow> Failed r \<and> \<not> TaskExecution.Completed r
                  \<and> FailureMsg r = ''max iterations reached before completion''
                  \<and> statusAfter r = TaskStatusBlocked)"
proof -
  obtain r w' where e: "executeTaskLoop env ex task ctx (nat m) [] [] [] w = (r, w')"
    by (cases "executeTaskLoop env ex task ctx (nat m) [] [] [] w")
  from executeTaskLoop_bounds[OF e] executeTaskLoop_exhausted[OF e] assms e
  show ?thesis
    by (auto simp: executeTask_def statusAfter_failed)
qed

lemma parseLines_ids:
  "map ID (parseLines ls k) = map (\<lambda>j. k + int j) [0..<length (parseLines ls k)]"
proof (induction ls k rule: parseLines.induct)
  case (1 taskID)
  show ?case by simp
next
  case (2 l ls taskID)
  have shift: "map (\<lambda>j. taskID + 1 + int j) [0..<n] = map (\<lambda>j. taskID + int j) [Suc 0..<Suc n]" for n
    by (induction n) auto
  from 2 show ?case
    by (auto simp: Let_def shift upt_conv_Cons simp del: upt_Suc split: option.splits)
qed

lemma parseLines_distinct: "distinct (map ID (parseLines ls k))"
  unfolding parseLines_ids by (simp add: distinct_map inj_on_def)

lemma setTaskStatus_nth:
  "distinct (map ID ts) \<Longrightarrow> i < length ts \<Longrightarrow>
     setTaskStatus ts (ID (ts ! i)) st = Some (ts[i := (ts ! i)\<lparr>Status := st\<rparr>])"
proof (induction ts arbitrary: i)
  case Nil
  then show ?case by simp
next
  case (Cons t ts)
  show ?case
  proof (cases i)
    case 0
    then show ?thesis by simp
  next
    case (Suc k)
    with Cons.prems have "ID (ts ! k) \<in> set (map ID ts)" by simp
    with Cons.prems have "ID t \<noteq> ID (ts ! k)" by auto
    with Cons Suc show ?thesis by simp
  qed
qed

lemma UpdateTaskStatus_nth:
  "distinct (map ID (Tasks tb)) \<Longrightarrow> i < length (Tasks tb) \<Longrightarrow>
     Tasks (snd (UpdateTaskStatus tb (ID (Tasks tb ! i)) st))
       = (Tasks tb)[i := (Tasks tb ! i)\<lparr>Status := st\<rparr>]"
  by (simp add: UpdateTaskStatus_def setTaskStatus_nth UpdateStats_counts)

lemma map_ID_update:
  "i < length ts \<Longrightarrow> ID t' = ID (ts ! i) \<Longrightarrow> map ID (ts[i := t']) = map ID ts"
  by (simp add: map_update list_update_same_conv)

text \<open>One iteration of the loop of \<open>Run\<close> rewrites the task at its index only.\<close>

lemma runTasks_statuses:
  assumes "runTasks env ex idx opts i n plan execs w = Some ((plan', execs'), w')"
    and "distinct (map ID (Tasks plan))"
    and "i + n = length (Tasks plan)"
  shows "length (Tasks plan') = length (Tasks plan)
       \<and> length execs' = length execs + n
       \<and> take (length execs) execs' = execs
       \<and> (\<forall>j<i. Tasks plan' ! j = Tasks plan ! j)
       \<and> (\<forall>j<n. Status (Tasks plan' ! (i + j)) = statusAfter (execs' ! (length execs + j)))"
  using assms
proof (induction n arbitrary: i plan execs w)
  case 0
  then show ?case by simp
next
  case (Suc n)
  let ?task = "Tasks plan ! i"
  let ?ctx = "FetchContext idx (Description ?task) (MaxContextResults opts)"
  from Suc.prems(3) have i: "i < length (Tasks plan)" by simp
  from Suc.prems(1) obtain r w1 where
    r: "executeTask env ex ?task ?ctx (MaxIterations opts) w = Some (r, w1)"
    by (cases "executeTask env ex ?task ?ctx (MaxIterations opts) w") (auto simp: Let_def)
  define plan1 where "plan1 = snd (UpdateTaskStatus plan (ID ?task) TaskStatusInProgress)"
  define plan2 where "plan2 = snd (UpdateTaskStatus plan1 (ID ?task) (statusAfter r))"
  define plan3 where "plan3 = plan2\<lparr>Tasks := (Tasks plan2)
        [i := (Tasks plan2 ! i)
           \<lparr>Details := ''Ran '' @ intStr (int (length (Actions r))) @ '' action(s)''\<rparr>]\<rparr>"
  have t1: "Tasks plan1 = (Tasks plan)[i := ?task\<lparr>Status := TaskStatusInProgress\<rparr>]"
    unfolding plan1_def by (rule UpdateTaskStatus_nth[OF Suc.prems(2) i])
  have d1: "distinct (map ID (Tasks plan1))" and i1: "i < length (Tasks plan1)"
    and id1: "ID (Tasks plan1 ! i) = ID ?task"
    using Suc.prems(2) i by (simp_all add: t1 map_ID_update)
  have t2: "Tasks plan2 = (Tasks plan1)[i := (Tasks plan1 ! i)\<lparr>Status := statusAfter r\<rparr>]"
    unfolding plan2_def using UpdateTaskStatus_nth[OF d1 i1, of "statusAfter r"] id1 by simp
  have t3: "Tasks plan3 = (Tasks plan)[i := ?task\<lparr>Status := statusAfter r,
      Details := ''Ran '' @ intStr (int (length (Actions r))) @ '' action(s)''\<rparr>]"
    using i by (simp add: plan3_def t2 t1)
  have d3: "distinct (map ID (Tasks plan3))"
    using Suc.prems(2) i by (simp add: t3 map_ID_update)
  have l3: "Suc i + n = length (Tasks plan3)" using Suc.prems(3) by (simp add: t3)
  from Suc.prems(1) r
  have rec: "runTasks env ex idx opts (Suc i) n plan3 (execs @ [r]) w1 = Some ((plan', execs'), w')"
    by (simp add: Let_def plan1_def plan2_def plan3_def)
  from Suc.IH[OF rec d3 l3]
  have len: "length (Tasks plan') = length (Tasks plan3)"
    and le: "length execs' = length (execs @ [r]) + n"
    and tk: "take (length (execs @ [r])) execs' = execs @ [r]"
    and before: "\<forall>j<Suc i. Tasks plan' ! j = Tasks plan3 ! j"
    and after: "\<forall>j<n. Status (Tasks plan' ! (Suc i + j)) = statusAfter (execs' ! (length (execs @ [r]) + j))"
    by blast+
  have e_at: "execs' ! length execs = r"
    using tk le by (metis length_append_singleton lessI nth_append_length nth_take)
  have "take (length execs) (take (length (execs @ [r])) execs') = take (length execs) execs'"
    by (simp add: min_def)
  with tk have tk': "take (length execs) execs' = execs" by simp
  have st_i: "Status (Tasks plan' ! i) = statusAfter r"
    using before i by (simp add: t3)
  have "Status (Tasks plan' ! (i + j)) = statusAfter (execs' ! (length execs + j))" if "j < Suc n" for j
  proof (cases j)
    case 0
    with st_i e_at show ?thesis by simp
  next
    case (Suc k)
    with that after show ?thesis by simp
  qed
  moreover have "\<forall>j<i. Tasks plan' ! j = Tasks plan ! j"
    using before by (simp add: t3)
  ultimately show ?case using len le tk' by (simp add: t3)
qed


lemma executeTask_respectsCap:
  assumes "0 \<le> m"
  shows "\<exists>r w'. executeTask env ex task ctx m w = Some (r, w') \<and> respectsCap m r"
  using executeTask_returns[OF assms, of env ex task ctx w]
  unfolding respectsCap_def by blast

lemma runTasks_respectsCap:
  assumes "0 < MaxIterations opts"
    and "list_all (respectsCap (MaxIterations opts)) execs"
  shows "\<exists>plan' execs' w'. runTasks env ex idx opts i n plan execs w = Some ((plan', execs'), w')
           \<and> list_all (respectsCap (MaxIterations opts)) execs'"
  using assms(2)
proof (induction n arbitrary: i plan execs w)
  case 0
  then show ?case by simp
next
  case (Suc n)
  let ?task = "Tasks plan ! i"
  let ?ctx = "FetchContext idx (Description ?task) (MaxContextResults opts)"
  from assms(1) have "0 \<le> MaxIterations opts" by simp
  from executeTask_respectsCap[OF this, of env ex ?task ?ctx w]
  obtain r w1 where r: "executeTask env ex ?task ?ctx (MaxIterations opts) w = Some (r, w1)"
    and cap: "respectsCap (MaxIterations opts) r"
    by blast
  from Suc.prems cap have "list_all (respectsCap (MaxIterations opts)) (execs @ [r])"
    by simp
  from Suc.IH[OF this] r show ?case
    by (simp add: Let_def)
qed

lemma PlanTask_distinct:
  "PlanTask env a userPrompt w = (Inr plan, l') \<Longrightarrow> distinct (map ID (Tasks plan))"
  by (auto simp: PlanTask_def ParseTasksFromLLM_def Let_def UpdateStats_counts
        parseLines_distinct split: prod.splits sum.splits if_splits)

lemma Run_executions:
  "Run env a userPrompt opts w \<noteq> None
   \<and> (Run env a userPrompt opts w = Some (Inr rr, w') \<longrightarrow>
        length (Executions rr) = length (Tasks (Plan rr))
        \<and> list_all (respectsCap (if MaxIterations opts \<le> 0 then 25 else MaxIterations opts))
            (Executions rr)
        \<and> (\<forall>j<length (Executions rr).
              Status (Tasks (Plan rr) ! j) = statusAfter (Executions rr ! j)))"
proof -
  obtain l fs where w: "w = (l, fs)" by (cases w)
  define opts1 where "opts1 = (if MaxIterations opts \<le> 0 then opts\<lparr>MaxIterations := 25\<rparr> else opts)"
  define opts2 where "opts2 = (if MaxContextResults opts1 \<le> 0 then opts1\<lparr>MaxContextResults := 8\<rparr>
                    else opts1)"
  have m: "MaxIterations opts2 = (if MaxIterations opts \<le> 0 then 25 else MaxIterations opts)"
    by (simp add: opts1_def opts2_def)
  then have pos: "0 < MaxIterations opts2" by (simp split: if_splits)
  show ?thesis
  proof (cases "IndexProject env fs (projectPath a)")
    case (Inl err)
    with w show ?thesis by (simp add: Run_def Let_def)
  next
    case idx: (Inr projectIndex)
    obtain pr l' where p: "PlanTask env a userPrompt (l, fs) = (pr, l')"
      by (cases "PlanTask env a userPrompt (l, fs)")
    show ?thesis
    proof (cases pr)
      case (Inl err)
      with w idx p show ?thesis by (simp add: Run_def Let_def)
    next
      case (Inr plan)
      let ?ex = "NewExecutor \<lparr>ProjectRoot = projectPath a, Index = Some projectIndex,
                             DryRun = RunOptions.DryRun opts2, Blocklist = []\<rparr>"
      from runTasks_respectsCap[OF pos, of "[]" env ?ex projectIndex 0 "length (Tasks plan)" plan "(l', fs)"]
      obtain plan' execs' w1 where
        rt: "runTasks env ?ex projectIndex opts2 0 (length (Tasks plan)) plan [] (l', fs)
              = Some ((plan', execs'), w1)"
        and b: "list_all (respectsCap (MaxIterations opts2)) execs'"
        by auto
      from p Inr have d: "distinct (map ID (Tasks plan))" by (simp add: PlanTask_distinct)
      from runTasks_statuses[OF rt d]
      have "length (Tasks plan') = length (Tasks plan)" "length execs' = length (Tasks plan)"
        "\<forall>j<length (Tasks plan). Status (Tasks plan' ! j) = statusAfter (execs' ! j)"
        by simp_all
      with w idx p Inr rt b m show ?thesis
        by (auto simp: Run_def Let_def opts1_def[symmetric] opts2_def[symmetric]
              UpdateStats_counts)
    qed
  qed
qed

text \<open>
  Claim C9 (iteration cap). Called with a non-negative cap, \<open>executeTask\<close> returns an
  execution that respects the cap: at most \<open>maxIterations\<close> actions, and failure with
  the message \<open>max iterations reached before completion\<close> when the cap is exhausted.
  \<open>Run\<close> never panics; it runs every task under the cap \<open>MaxIterations\<close>, or 25 when
  the caller passes a non-positive value, and leaves each task of the plan with the
  status its execution maps to, blocked for an exhausted cap.
\<close>

theorem iteration_cap:
  "(0 \<le> maxIterations \<longrightarrow>
      (\<exists>r w'. executeTask env ex task ctx maxIterations w = Some (r, w')
               \<and> respectsCap maxIterations r))
   \<and> Run env a userPrompt opts w \<noteq> None
   \<and> (Run env a userPrompt opts w = Some (Inr rr, w1) \<longrightarrow>
        length (Executions rr) = length (Tasks (Plan rr))
        \<and> list_all (respectsCap (if MaxIterations opts \<le> 0 then 25 else MaxIterations opts))
            (Executions rr)
        \<and> (\<forall>j<length (Executions rr).
              Status (Tasks (Plan rr) ! j) = statusAfter (Executions rr ! j)))"
  using executeTask_respectsCap[of maxIterations env ex task ctx w]
    Run_executions[of env a userPrompt opts w rr w1]
  by blast

text \<open>
  The theorem at the searching model: a cap of 2 is exhausted after two actions, and
  \<open>Run\<close> with \<open>MaxIterations = 0\<close> runs 25 actions and blocks the task.
\<close>

theorem iteration_cap_witness:
  "(0::int) \<le> 2
   \<and> (\<exists>r w'. executeTask searchingModel
          \<lparr>projectRoot = ''/proj'',
            index = Some \<lparr>SearchSymbol = (\<lambda>q. []), FetchContext = (\<lambda>d k. [])\<rparr>,
            dryRun = False, blocklist = []\<rparr>
          \<lparr>ID = 1, Description = ''do it'', Status = TaskStatusPending, Details = [],
            FilePath = [], Line = 0\<rparr>
          [] 2 (0, Map.empty) = Some (r, w')
        \<and> respectsCap 2 r \<and> length (Actions r) = 2
        \<and> FailureMsg r = ''max iterations reached before completion'')
   \<and> (\<exists>rr w1. Run searchingModel \<lparr>projectPath = ''/proj''\<rparr> ''go''
          \<lparr>DryRun = False, MaxIterations = 0, MaxContextResults = 0\<rparr> (0, Map.empty)
          = Some (Inr rr, w1)
        \<and> length (Executions rr) = length (Tasks (Plan rr))
        \<and> list_all (respectsCap 25) (Executions rr)
        \<and> map (\<lambda>x. (length (Actions x), FailureMsg x)) (Executions rr)
            = [(25, ''max iterations reached before completion'')]
        \<and> map Status (Tasks (Plan rr)) = [TaskStatusBlocked])"
proof -
  let ?ex = "\<lparr>projectRoot = ''/proj'',
            index = Some \<lparr>SearchSymbol = (\<lambda>q. []), FetchContext = (\<lambda>d k. [])\<rparr>,
            dryRun = False, blocklist = []\<rparr>"
  let ?task = "\<lparr>ID = 1, Description = ''do it'', Status = TaskStatusPending, Details = [],
            FilePath = [], Line = 0\<rparr>"
  let ?a = "\<lparr>projectPath = ''/proj''\<rparr>"
  let ?opts = "\<lparr>DryRun = False, MaxIterations = 0, MaxContextResults = 0\<rparr>"
  let ?w = "(0::nat, Map.empty :: FS)"
  have run: "(case Run searchingModel ?a ''go'' ?opts ?w of
      Some (Inr rr, w1) \<Rightarrow>
        map (\<lambda>x. (length (Actions x), FailureMsg x)) (Executions rr)
          = [(25, ''max iterations reached before completion'')]
        \<and> map Status (Tasks (Plan rr)) = [TaskStatusBlocked]
    | _ \<Rightarrow> False)"
    by code_simp
  then obtain rr w1 where R: "Run searchingModel ?a ''go'' ?opts ?w = Some (Inr rr, w1)"
    and r1: "map (\<lambda>x. (length (Actions x), FailureMsg x)) (Executions rr)
          = [(25, ''max iterations reached before completion'')]"
    and r2: "map Status (Tasks (Plan rr)) = [TaskStatusBlocked]"
    by (auto split: option.splits sum.splits prod.splits)
  have exec: "(case executeTask searchingModel ?ex ?task [] 2 ?w of
      Some (r, w1) \<Rightarrow> length (Actions r) = 2
         \<and> FailureMsg r = ''max iterations reached before completion''
    | _ \<Rightarrow> False)"
    by code_simp
  have le: "(0::int) \<le> 2" by simp
  from iteration_cap[of 2 searchingModel ?ex ?task "[]" ?w ?a "''go''" ?opts rr w1] le R
  obtain r w' where E: "executeTask searchingModel ?ex ?task [] 2 ?w = Some (r, w')"
    and c1: "respectsCap 2 r"
    and c2: "length (Executions rr) = length (Tasks (Plan rr))"
    and c3: "list_all (respectsCap 25) (Executions rr)"
    by auto
  from exec E have c4: "length (Actions r) = 2"
    and c5: "FailureMsg r = ''max iterations reached before completion''" by simp_all
  from E c1 c4 c5
  have p1: "\<exists>r w'. executeTask searchingModel ?ex ?task [] 2 ?w = Some (r, w')
        \<and> respectsCap 2 r \<and> length (Actions r) = 2
        \<and> FailureMsg r = ''max iterations reached before completion''"
    by (intro exI[of _ r] exI[of _ w']) simp
  from R c2 c3 r1 r2
  have p2: "\<exists>rr w1. Run searchingModel ?a ''go'' ?opts ?w = Some (Inr rr, w1)
        \<and> length (Executions rr) = length (Tasks (Plan rr))
        \<and> list_all (respectsCap 25) (Executions rr)
        \<and> map (\<lambda>x. (length (Actions x), FailureMsg x)) (Executions rr)
            = [(25, ''max iterations reached before completion'')]
        \<and> map Status (Tasks (Plan rr)) = [TaskStatusBlocked]"
    by (intro exI[of _ rr] exI[of _ w1]) simp
  from le p1 p2 show ?thesis by (intro conjI)
qed


section \<open>Properties of the chunker\<close>




















section \<open>Properties of the vector store\<close>

lemma insertLoop_mismatch:
  "length chunks = length embeddings \<Longrightarrow> \<exists>emb\<in>set embeddings. int (length emb) \<noteq> d \<Longrightarrow>
     \<exists>err. insertLoop d tx chunks embeddings = Inl err"
  by (induction d tx chunks embeddings rule: insertLoop.induct) auto

text \<open>
  Claim C6 (dimension mismatch). When some vector of the batch does not have the length
  the store is configured with, \<open>InsertBatch\<close> returns an error and the store after the
  call is the store before it.
\<close>

theorem InsertBatch_dimension_mismatch:
  assumes "\<exists>emb\<in>set embeddings. int (length emb) \<noteq> dims s"
  shows "fst (InsertBatch s chunks embeddings) \<noteq> None
       \<and> snd (InsertBatch s chunks embeddings) = s"
proof (cases "length chunks = length embeddings")
  case True
  from insertLoop_mismatch[OF True assms, of "db s"] show ?thesis
    by (auto simp: InsertBatch_def True)
next
  case False
  then show ?thesis by (simp add: InsertBatch_def)
qed

text \<open>
  Claim C10 (content-addressed ids). The id of a new chunk is the first 16 characters of
  the hash of its content, whatever its path, kind, symbol, language and lines; and when
  two chunks with one id are inserted with vectors of the right length, in one batch or
  one after the other, the store ends with the second chunk's row as the only row of
  that id and with at most one row more than before.
\<close>

theorem NewChunk_id_upsert:
  "Chunk.ID (NewChunk computeHash filePath1 content chunkType1 symbolName1 language1 start1 end1)
     = take 16 (computeHash content)
   \<and> Chunk.ID (NewChunk computeHash filePath1 content chunkType1 symbolName1 language1 start1 end1)
     = Chunk.ID (NewChunk computeHash filePath2 content chunkType2 symbolName2 language2 start2 end2)
   \<and> (Chunk.ID c1 = Chunk.ID c2 \<and> int (length emb1) = dims s \<and> int (length emb2) = dims s \<longrightarrow>
        fst (InsertBatch s [c1, c2] [emb1, emb2]) = None
        \<and> Count (snd (InsertBatch s [c1, c2] [emb1, emb2])) \<le> Count s + 1
        \<and> filter (\<lambda>r. Chunk.ID (chunk r) = Chunk.ID c2)
             (db (snd (InsertBatch s [c1, c2] [emb1, emb2])))
            = [\<lparr>chunk = c2, embedding = encodeEmbedding emb2\<rparr>]
        \<and> snd (InsertBatch s [c1, c2] [emb1, emb2])
            = snd (Insert (snd (Insert s c1 emb1)) c2 emb2)
        \<and> fst (Insert s c1 emb1) = None
        \<and> fst (Insert (snd (Insert s c1 emb1)) c2 emb2) = None)"
proof (intro conjI impI)
  assume a: "Chunk.ID c1 = Chunk.ID c2 \<and> int (length emb1) = dims s \<and> int (length emb2) = dims s"
  have len: "length (filter (\<lambda>r. Chunk.ID (chunk r) \<noteq> Chunk.ID c2) (db s)) \<le> length (db s)"
    by simp
  have flt: "filter (\<lambda>r. Chunk.ID (chunk r) = Chunk.ID c2)
          (filter (\<lambda>r. Chunk.ID (chunk r) \<noteq> Chunk.ID c2) rows) = []" for rows :: "Row list"
    by (induction rows) auto
  from a show "fst (InsertBatch s [c1, c2] [emb1, emb2]) = None"
    by (simp add: InsertBatch_def)
  from a len show "Count (snd (InsertBatch s [c1, c2] [emb1, emb2])) \<le> Count s + 1"
    by (simp add: InsertBatch_def Count_def insertOrReplace_def)
  from a show "filter (\<lambda>r. Chunk.ID (chunk r) = Chunk.ID c2)
            (db (snd (InsertBatch s [c1, c2] [emb1, emb2])))
            = [\<lparr>chunk = c2, embedding = encodeEmbedding emb2\<rparr>]"
    by (simp add: InsertBatch_def insertOrReplace_def flt)
  from a show "snd (InsertBatch s [c1, c2] [emb1, emb2])
            = snd (Insert (snd (Insert s c1 emb1)) c2 emb2)"
    by (simp add: InsertBatch_def Insert_def)
  from a show "fst (Insert s c1 emb1) = None"
    by (simp add: InsertBatch_def Insert_def)
  from a show "fst (Insert (snd (Insert s c1 emb1)) c2 emb2) = None"
    by (simp add: InsertBatch_def Insert_def)
qed (simp_all add: NewChunk_def Let_def)

text \<open>
  The theorem at a store of dimension 2 that holds one row: a batch whose first vector
  fits and whose second has three elements is refused, and the row of the first chunk,
  written inside the transaction, is gone with it.
\<close>

theorem InsertBatch_dimension_mismatch_witness:
  "(\<exists>emb\<in>set [[1, 2], [1, 2, 3 :: float32]]. int (length emb) \<noteq> dims
        \<lparr>db = [\<lparr>chunk = NewChunk sampleHash ''a.go'' ''old'' ''function'' ''A'' ''go'' 1 1,
                 embedding = encodeEmbedding [0, 0]\<rparr>], dims = 2\<rparr>)
   \<and> fst (InsertBatch
        \<lparr>db = [\<lparr>chunk = NewChunk sampleHash ''a.go'' ''old'' ''function'' ''A'' ''go'' 1 1,
                 embedding = encodeEmbedding [0, 0]\<rparr>], dims = 2\<rparr>
        [NewChunk sampleHash ''b.go'' ''one'' ''function'' ''B'' ''go'' 1 1,
         NewChunk sampleHash ''b.go'' ''two'' ''function'' ''C'' ''go'' 2 2]
        [[1, 2], [1, 2, 3]])
      = Some ''embedding dims mismatch: expected 2 got 3''
   \<and> snd (InsertBatch
        \<lparr>db = [\<lparr>chunk = NewChunk sampleHash ''a.go'' ''old'' ''function'' ''A'' ''go'' 1 1,
                 embedding = encodeEmbedding [0, 0]\<rparr>], dims = 2\<rparr>
        [NewChunk sampleHash ''b.go'' ''one'' ''function'' ''B'' ''go'' 1 1,
         NewChunk sampleHash ''b.go'' ''two'' ''function'' ''C'' ''go'' 2 2]
        [[1, 2], [1, 2, 3]])
      = \<lparr>db = [\<lparr>chunk = NewChunk sampleHash ''a.go'' ''old'' ''function'' ''A'' ''go'' 1 1,
                 embedding = encodeEmbedding [0, 0]\<rparr>], dims = 2\<rparr>"
proof -
  let ?s = "\<lparr>db = [\<lparr>chunk = NewChunk sampleHash ''a.go'' ''old'' ''function'' ''A'' ''go'' 1 1,
                 embedding = encodeEmbedding [0, 0]\<rparr>], dims = 2\<rparr>"
  let ?chunks = "[NewChunk sampleHash ''b.go'' ''one'' ''function'' ''B'' ''go'' 1 1,
         NewChunk sampleHash ''b.go'' ''two'' ''function'' ''C'' ''go'' 2 2]"
  let ?embs = "[[1, 2], [1, 2, 3 :: float32]]"
  have h: "\<exists>emb\<in>set ?embs. int (length emb) \<noteq> dims ?s" by simp
  have e: "fst (InsertBatch ?s ?chunks ?embs) = Some ''embedding dims mismatch: expected 2 got 3''"
    by code_simp
  from InsertBatch_dimension_mismatch[OF h, of ?chunks] h e show ?thesis by simp
qed

text \<open>
  The theorem at two chunks with the content \<open>x\<close> in different files, inserted into an
  empty store of dimension 1: one row is left, the row of the second chunk.
\<close>

theorem NewChunk_id_upsert_witness:
  "Chunk.ID (NewChunk sampleHash ''a.go'' ''x'' ''function'' ''A'' ''go'' 1 1)
     = Chunk.ID (NewChunk sampleHash ''b.go'' ''x'' ''method'' ''B'' ''go'' 7 7)
   \<and> int (length [0 :: float32]) = dims \<lparr>db = [], dims = 1\<rparr>
   \<and> int (length [1 :: float32]) = dims \<lparr>db = [], dims = 1\<rparr>
   \<and> fst (InsertBatch \<lparr>db = [], dims = 1\<rparr>
        [NewChunk sampleHash ''a.go'' ''x'' ''function'' ''A'' ''go'' 1 1,
         NewChunk sampleHash ''b.go'' ''x'' ''method'' ''B'' ''go'' 7 7] [[0], [1]]) = None
   \<and> Count (snd (InsertBatch \<lparr>db = [], dims = 1\<rparr>
        [NewChunk sampleHash ''a.go'' ''x'' ''function'' ''A'' ''go'' 1 1,
         NewChunk sampleHash ''b.go'' ''x'' ''method'' ''B'' ''go'' 7 7] [[0], [1]])) = 1
   \<and> db (snd (InsertBatch \<lparr>db = [], dims = 1\<rparr>
        [NewChunk sampleHash ''a.go'' ''x'' ''function'' ''A'' ''go'' 1 1,
         NewChunk sampleHash ''b.go'' ''x'' ''method'' ''B'' ''go'' 7 7] [[0], [1]]))
      = [\<lparr>chunk = NewChunk sampleHash ''b.go'' ''x'' ''method'' ''B'' ''go'' 7 7,
          embedding = encodeEmbedding [1]\<rparr>]"
proof -
  let ?s = "\<lparr>db = [], dims = 1\<rparr>"
  let ?c1 = "NewChunk sampleHash ''a.go'' ''x'' ''function'' ''A'' ''go'' 1 1"
  let ?c2 = "NewChunk sampleHash ''b.go'' ''x'' ''method'' ''B'' ''go'' 7 7"
  have h: "Chunk.ID ?c1 = Chunk.ID ?c2 \<and> int (length [0 :: float32]) = dims ?s
      \<and> int (length [1 :: float32]) = dims ?s"
    by (simp add: NewChunk_def Let_def)
  from NewChunk_id_upsert[of sampleHash "''a.go''" "''x''" "''function''" "''A''" "''go''" 1 1
      "''b.go''" "''method''" "''B''" "''go''" 7 7 ?c1 ?c2 "[0]" ?s "[1]"] h
  have r: "fst (InsertBatch ?s [?c1, ?c2] [[0], [1]]) = None"
    "Count (snd (InsertBatch ?s [?c1, ?c2] [[0], [1]])) \<le> Count ?s + 1"
    "filter (\<lambda>r. Chunk.ID (chunk r) = Chunk.ID ?c2) (db (snd (InsertBatch ?s [?c1, ?c2] [[0], [1]])))
       = [\<lparr>chunk = ?c2, embedding = encodeEmbedding [1]\<rparr>]"
    by blast+
  have d: "db (snd (InsertBatch ?s [?c1, ?c2] [[0], [1]]))
      = [\<lparr>chunk = ?c2, embedding = encodeEmbedding [1]\<rparr>]"
    using h by (simp add: InsertBatch_def insertOrReplace_def)
  then have "Count (snd (InsertBatch ?s [?c1, ?c2] [[0], [1]])) = 1"
    by (simp add: Count_def)
  with h r(1) d show ?thesis by simp
qed

section \<open>Properties of the result merger\<close>

lemma specFileTokens_le: "specFileTokens f \<le> fileTokens f"
  by (simp add: specFileTokens_def fileTokens_def Let_def)

lemma specFileTokens_eq:
  "Chunks f = [] \<or> sum_list (map TokenCount (Chunks f)) \<noteq> 0 \<Longrightarrow> specFileTokens f = fileTokens f"
  by (auto simp: specFileTokens_def fileTokens_def Let_def)

lemma truncateLoop_total:
  "truncateLoop maxTokens files totalTokens truncated = (tr, tot) \<Longrightarrow>
     \<exists>accepted. tr = truncated @ accepted \<and> accepted = take (length accepted) files
       \<and> tot = totalTokens + sum_list (map fileTokens accepted)
       \<and> (totalTokens \<le> maxTokens \<longrightarrow> tot \<le> maxTokens)"
proof (induction files arbitrary: totalTokens truncated)
  case Nil
  then show ?case by simp
next
  case (Cons f files)
  show ?case
  proof (cases "totalTokens + fileTokens f > maxTokens")
    case True
    with Cons.prems show ?thesis by simp
  next
    case False
    with Cons.prems have "truncateLoop maxTokens files (totalTokens + fileTokens f)
        (truncated @ [f]) = (tr, tot)" by simp
    from Cons.IH[OF this] obtain accepted where
      a: "tr = (truncated @ [f]) @ accepted" "accepted = take (length accepted) files"
        "tot = totalTokens + fileTokens f + sum_list (map fileTokens accepted)"
        "totalTokens + fileTokens f \<le> maxTokens \<longrightarrow> tot \<le> maxTokens"
      by blast
    from a False show ?thesis
      by (intro exI[of _ "f # accepted"]) auto
  qed
qed

lemma truncateToTokenBudget_budget:
  assumes "0 \<le> maxTokens"
  shows "TotalTokens (truncateToTokenBudget maxTokens res)
           = sum_list (map fileTokens (Files (truncateToTokenBudget maxTokens res)))
       \<and> TotalTokens (truncateToTokenBudget maxTokens res) \<le> maxTokens
       \<and> Files (truncateToTokenBudget maxTokens res)
           = take (length (Files (truncateToTokenBudget maxTokens res))) (Files res)"
proof -
  obtain tr tot where t: "truncateLoop maxTokens (Files res) 0 [] = (tr, tot)"
    by (cases "truncateLoop maxTokens (Files res) 0 []")
  from truncateLoop_total[OF t] assms t show ?thesis
    by (auto simp: truncateToTokenBudget_def)
qed

lemma sum_list_mono_map:
  "(\<And>x. x \<in> set xs \<Longrightarrow> f x \<le> (g x :: int)) \<Longrightarrow> sum_list (map f xs) \<le> sum_list (map g xs)"
  by (induction xs) (auto intro: add_mono)

text \<open>
  Claim C5 (token budget), as amended. For a budget that is not negative, the token
  counts of the returned files, as the specification counts them, add up to at most the
  budget. \<open>TotalTokens\<close> is the sum of the counts the code uses (\<open>fileTokens\<close>), which
  is at most the budget too, and it equals the specification's sum whenever no returned
  file has chunks whose estimates add up to zero.
\<close>

theorem Merge_token_budget:
  assumes "0 \<le> maxTokens"
  shows "sum_list (map specFileTokens (Files (Merge iterate maxTokens ragResults indexerFiles)))
           \<le> maxTokens
    \<and> TotalTokens (Merge iterate maxTokens ragResults indexerFiles)
        = sum_list (map fileTokens (Files (Merge iterate maxTokens ragResults indexerFiles)))
    \<and> TotalTokens (Merge iterate maxTokens ragResults indexerFiles) \<le> maxTokens
    \<and> (list_all (\<lambda>f. Chunks f = [] \<or> sum_list (map TokenCount (Chunks f)) \<noteq> 0)
          (Files (Merge iterate maxTokens ragResults indexerFiles))
        \<longrightarrow> TotalTokens (Merge iterate maxTokens ragResults indexerFiles)
            = sum_list (map specFileTokens
                (Files (Merge iterate maxTokens ragResults indexerFiles))))"
proof -
  obtain fileMap1 nRAG where r: "addRAGResults ragResults ([], 0) = (fileMap1, nRAG)"
    by (cases "addRAGResults ragResults ([], 0)")
  obtain fileMap2 nIndexer where i: "addIndexerFiles indexerFiles (fileMap1, 0) = (fileMap2, nIndexer)"
    by (cases "addIndexerFiles indexerFiles (fileMap1, 0)")
  define res0 where "res0 = \<lparr>Files = sortByRelevance (iterate (map snd fileMap2)),
                   TotalTokens = 0, QueryType = [],
                   Sources = \<lparr>Indexer = nIndexer, RAG = nRAG\<rparr>\<rparr>"
  have m: "Merge iterate maxTokens ragResults indexerFiles = truncateToTokenBudget maxTokens res0"
    by (simp add: Merge_def r i res0_def)
  let ?r = "truncateToTokenBudget maxTokens res0"
  from truncateToTokenBudget_budget[OF assms, of res0]
  have t1: "TotalTokens ?r = sum_list (map fileTokens (Files ?r))"
    and t2: "TotalTokens ?r \<le> maxTokens" by simp_all
  have "sum_list (map specFileTokens (Files ?r)) \<le> sum_list (map fileTokens (Files ?r))"
    by (rule sum_list_mono_map) (rule specFileTokens_le)
  with t1 t2 have t3: "sum_list (map specFileTokens (Files ?r)) \<le> maxTokens" by simp
  have t4: "TotalTokens ?r = sum_list (map specFileTokens (Files ?r))"
    if "list_all (\<lambda>f. Chunks f = [] \<or> sum_list (map TokenCount (Chunks f)) \<noteq> 0) (Files ?r)"
  proof -
    from that have "\<forall>x\<in>set (Files ?r). specFileTokens x = fileTokens x"
      by (auto simp: list_all_iff specFileTokens_eq)
    then have "map specFileTokens (Files ?r) = map fileTokens (Files ?r)"
      by (simp only: map_eq_conv)
    with t1 show ?thesis by (simp only:)
  qed
  from t1 t2 t3 t4 show ?thesis unfolding m by blast
qed














lemma Merge_example:
  "Files (Merge id 1000
      [sampleResult ''b.go'' 400 (8 / 10), sampleResult ''c.go'' 400 (6 / 10)]
      [''a.go'', ''b.go''])
   = [\<lparr>FileResult.Path = ''b.go'', Content = [], Relevance = 26 / 25, Source = ''both'',
        Highlights = [\<lparr>Start = 1, End = 9\<rparr>], Chunks = [sampleChunk ''b.go'' 400]\<rparr>,
      \<lparr>FileResult.Path = ''a.go'', Content = [], Relevance = 9 / 10, Source = ''indexer'',
        Highlights = [], Chunks = []\<rparr>]"
  by (simp add: Merge_def truncateToTokenBudget_def sortByRelevance_def fileTokens_def
      sampleResult_def sampleChunk_def Let_def)

lemma Merge_example_total:
  "TotalTokens (Merge id 1000
      [sampleResult ''b.go'' 400 (8 / 10), sampleResult ''c.go'' 400 (6 / 10)]
      [''a.go'', ''b.go'']) = 900"
  by (simp add: Merge_def truncateToTokenBudget_def sortByRelevance_def fileTokens_def
      sampleResult_def sampleChunk_def Let_def)


lemmas Merge_eval = Merge_def truncateToTokenBudget_def sortByRelevance_def fileTokens_def
  sampleResult_def sampleChunk_def Let_def

text \<open>
  The theorem at the merger scenario of the specification with a budget of 1,000 and
  chunks of 400 tokens: \<open>b.go\<close> (400) and \<open>a.go\<close> (500) are returned, \<open>c.go\<close> would
  exceed the budget.
\<close>

theorem Merge_token_budget_witness:
  "(0::int) \<le> 1000
   \<and> map FileResult.Path (Files (Merge id 1000
        [sampleResult ''b.go'' 400 (8 / 10), sampleResult ''c.go'' 400 (6 / 10)]
        [''a.go'', ''b.go''])) = [''b.go'', ''a.go'']
   \<and> sum_list (map specFileTokens (Files (Merge id 1000
        [sampleResult ''b.go'' 400 (8 / 10), sampleResult ''c.go'' 400 (6 / 10)]
        [''a.go'', ''b.go'']))) \<le> 1000
   \<and> TotalTokens (Merge id 1000
        [sampleResult ''b.go'' 400 (8 / 10), sampleResult ''c.go'' 400 (6 / 10)]
        [''a.go'', ''b.go''])
      = sum_list (map specFileTokens (Files (Merge id 1000
        [sampleResult ''b.go'' 400 (8 / 10), sampleResult ''c.go'' 400 (6 / 10)]
        [''a.go'', ''b.go''])))
   \<and> TotalTokens (Merge id 1000
        [sampleResult ''b.go'' 400 (8 / 10), sampleResult ''c.go'' 400 (6 / 10)]
        [''a.go'', ''b.go'']) = 900"
proof -
  let ?r = "Merge id 1000
        [sampleResult ''b.go'' 400 (8 / 10), sampleResult ''c.go'' 400 (6 / 10)]
        [''a.go'', ''b.go'']"
  have b: "(0::int) \<le> 1000" by simp
  have f: "Files ?r = [\<lparr>FileResult.Path = ''b.go'', Content = [], Relevance = 26 / 25,
        Source = ''both'', Highlights = [\<lparr>Start = 1, End = 9\<rparr>],
        Chunks = [sampleChunk ''b.go'' 400]\<rparr>,
      \<lparr>FileResult.Path = ''a.go'', Content = [], Relevance = 9 / 10, Source = ''indexer'',
        Highlights = [], Chunks = []\<rparr>]"
    by (rule Merge_example)
  have ok: "list_all (\<lambda>f. Chunks f = [] \<or> sum_list (map TokenCount (Chunks f)) \<noteq> 0) (Files ?r)"
    unfolding f by (simp add: sampleChunk_def)
  from Merge_token_budget[OF b, of id "[sampleResult ''b.go'' 400 (8 / 10), sampleResult ''c.go'' 400 (6 / 10)]"
      "[''a.go'', ''b.go'']"] ok
  have t: "sum_list (map specFileTokens (Files ?r)) \<le> 1000"
    "TotalTokens ?r = sum_list (map specFileTokens (Files ?r))"
    by blast+
  have p: "map FileResult.Path (Files ?r) = [''b.go'', ''a.go'']" unfolding f by simp
  from b p t Merge_example_total show ?thesis by (intro conjI)
qed

text \<open>
  The claim as stated fails in two ways. With the budget \<open>-1\<close> nothing is returned and
  the sum, 0, exceeds the budget. With a budget of 1,000 and one file whose only chunk
  has the token estimate 0 (the three characters \<open>A=B\<close>), the file counts 500 towards
  \<open>TotalTokens\<close> while the sum of its chunks' estimates is 0.
\<close>

theorem Merge_token_budget_counterexample:
  "\<not> sum_list (map specFileTokens (Files (Merge id (- 1) [] []))) \<le> - 1
   \<and> TotalTokens (Merge id 1000 [sampleResult ''a.go'' 0 1] []) = 500
   \<and> sum_list (map specFileTokens (Files (Merge id 1000 [sampleResult ''a.go'' 0 1] []))) = 0"
  by (simp add: Merge_eval specFileTokens_def)



end
